theory Spec2Isabelle
  imports Complex_Main
begin

section \<open>Errors\<close>

text \<open>
  Go's \<^verbatim>\<open>error\<close> values of the repository.  The sentinels of package heatsink
  (\<^verbatim>\<open>ErrControllerStopped\<close>, \<^verbatim>\<open>ErrFanDriverClosed\<close>, \<^verbatim>\<open>ErrThermoSensorClosed\<close>), the
  validation errors of \<^verbatim>\<open>Config.validate\<close>, an error made by \<^verbatim>\<open>errors.New\<close>
  (\<open>ErrorsNew\<close>: what a device or a sensor reports), the wrapping
  \<^verbatim>\<open>fmt.Errorf("<context>: %w", err)\<close> (\<open>Errorf\<close>) and the slice type \<^verbatim>\<open>multiErrs\<close>.
  A Go \<^verbatim>\<open>error\<close> that may be nil is an \<open>error option\<close>, \<open>None\<close> being nil.
\<close>

datatype error =
    ErrControllerStopped
  | ErrFanDriverClosed
  | ErrThermoSensorClosed
  | errNoConfig
  | errNoFan
  | errNoSensors
  | errNilSensor
  | errBadTemps
  | ErrorsNew string
  | Errorf string error
  | multiErrs "error list"

text \<open>
  The errors an error value reports: itself, and everything reachable by unwrapping
  (\<^verbatim>\<open>%w\<close>) or by listing the entries of a \<^verbatim>\<open>multiErrs\<close>.
\<close>

fun reported :: "error \<Rightarrow> error list" where
  "reported (Errorf ctx e) = Errorf ctx e # reported e"
| "reported (multiErrs es) = multiErrs es # concat (map reported es)"
| "reported e = [e]"

section \<open>Duty-cycle functions (dutycyclers.go)\<close>

text \<open>
  Go's \<^verbatim>\<open>float64\<close> is modelled by \<open>real\<close>: comparisons, subtraction, division and
  \<^verbatim>\<open>math.Pow\<close> are the exact operations, so the rounding of each float operation, NaN
  and the infinities are outside the model.
\<close>

record dutyCyclerLinear =
  lin_minTemp :: real
  lin_maxTemp :: real
  lin_tRange :: real

definition newDutyCyclerLinear :: "real \<Rightarrow> real \<Rightarrow> dutyCyclerLinear" where
  "newDutyCyclerLinear minTemp maxTemp =
     \<lparr>lin_minTemp = minTemp, lin_maxTemp = maxTemp, lin_tRange = maxTemp - minTemp\<rparr>"

definition ratioLinear :: "dutyCyclerLinear \<Rightarrow> real \<Rightarrow> real" where
  "ratioLinear dc temp =
     (if temp \<ge> lin_maxTemp dc then 1
      else if temp \<le> lin_minTemp dc then 0
      else (temp - lin_minTemp dc) / lin_tRange dc)"

record dutyCyclerPowPi =
  pow_minTemp :: real
  pow_maxTemp :: real
  pow_tRange :: real

definition newDutyCyclerPowPi :: "real \<Rightarrow> real \<Rightarrow> dutyCyclerPowPi" where
  "newDutyCyclerPowPi minTemp maxTemp =
     \<lparr>pow_minTemp = minTemp, pow_maxTemp = maxTemp, pow_tRange = maxTemp - minTemp\<rparr>"

definition ratioPowPi :: "dutyCyclerPowPi \<Rightarrow> real \<Rightarrow> real" where
  "ratioPowPi dc temp =
     (if temp \<ge> pow_maxTemp dc then 1
      else if temp \<le> pow_minTemp dc then 0
      else ((temp - pow_minTemp dc) / pow_tRange dc) powr pi)"

text \<open>The spec's clamp of a value to the interval from \<open>lo\<close> to \<open>hi\<close>.\<close>

definition clamp :: "real \<Rightarrow> real \<Rightarrow> real \<Rightarrow> real" where
  "clamp x lo hi = max lo (min hi x)"

section \<open>The PWM fan driver (package fanpwm)\<close>

subsection \<open>The device file\<close>

text \<open>
  The driver reaches its device through the interface \<^verbatim>\<open>wrOnlyFile\<close> (Seek, Truncate,
  Write, Close).  The model is the repository's \<^verbatim>\<open>fakeFile\<close>: every method pops the next
  scripted error of its own list (nil when the list is empty) and records the call.  The
  fake's per-method records carry time stamps; here one list \<open>calls\<close> keeps the calls in the
  order they were made, \<open>CallClose\<close> included.
\<close>

datatype dev_call = CallSeek int int | CallTruncate int | CallWrite string | CallClose

record fakeFile =
  calls :: "dev_call list"
  onSeekErrs :: "error option list"
  onTruncateErrs :: "error option list"
  onWriteErrs :: "error option list"
  onCloseErrs :: "error option list"

definition ffSeek :: "int \<Rightarrow> int \<Rightarrow> fakeFile \<Rightarrow> error option \<times> fakeFile" where
  "ffSeek off whence ff =
     (case onSeekErrs ff of
        [] \<Rightarrow> (None, ff\<lparr>calls := calls ff @ [CallSeek off whence]\<rparr>)
      | e # es \<Rightarrow> (e, ff\<lparr>calls := calls ff @ [CallSeek off whence], onSeekErrs := es\<rparr>))"

definition ffTruncate :: "int \<Rightarrow> fakeFile \<Rightarrow> error option \<times> fakeFile" where
  "ffTruncate sz ff =
     (case onTruncateErrs ff of
        [] \<Rightarrow> (None, ff\<lparr>calls := calls ff @ [CallTruncate sz]\<rparr>)
      | e # es \<Rightarrow> (e, ff\<lparr>calls := calls ff @ [CallTruncate sz], onTruncateErrs := es\<rparr>))"

definition ffWrite :: "string \<Rightarrow> fakeFile \<Rightarrow> error option \<times> fakeFile" where
  "ffWrite b ff =
     (case onWriteErrs ff of
        [] \<Rightarrow> (None, ff\<lparr>calls := calls ff @ [CallWrite b]\<rparr>)
      | e # es \<Rightarrow> (e, ff\<lparr>calls := calls ff @ [CallWrite b], onWriteErrs := es\<rparr>))"

definition ffClose :: "fakeFile \<Rightarrow> error option \<times> fakeFile" where
  "ffClose ff =
     (case onCloseErrs ff of
        [] \<Rightarrow> (None, ff\<lparr>calls := calls ff @ [CallClose]\<rparr>)
      | e # es \<Rightarrow> (e, ff\<lparr>calls := calls ff @ [CallClose], onCloseErrs := es\<rparr>))"


subsection \<open>The driver\<close>

text \<open>
  \<^verbatim>\<open>time.Duration\<close> is a count of nanoseconds (\<open>int\<close>).  The goroutine that the driver
  keeps alive is the field \<open>task\<close>: the no-op task of \<^verbatim>\<open>startAsyncNopPWM\<close>, the pulsing
  task of \<^verbatim>\<open>startAsyncPWM\<close> with its two durations, or none (between the retirement of
  one task and the start of the next, and after \<^verbatim>\<open>Close\<close> has waited for all of them).
  \<open>closeSignal\<close> is \<open>True\<close> once the channel of that name is closed.  The mutexes make
  \<^verbatim>\<open>SetDutyCycle\<close> and \<^verbatim>\<open>Close\<close> atomic with respect to each other, and the unbuffered
  send on \<^verbatim>\<open>unsetCurPWM\<close> is received by the pulsing task only between two full cycles,
  so a run of the driver is a sequence of calls and of whole background cycles.
\<close>

datatype pwm_task = NoTask | NopPWM | AsyncPWM int int

record Driver =
  name :: string
  devFile :: fakeFile
  minSpeedVal :: string
  maxSpeedVal :: string
  pwmPeriod :: int
  task :: pwm_task
  closeSignal :: bool

definition setSpeedMax :: "Driver \<Rightarrow> error option \<times> Driver" where
  "setSpeedMax dr =
     (case ffSeek 0 0 (devFile dr) of
        (Some err, f1) \<Rightarrow> (Some err, dr\<lparr>devFile := f1\<rparr>)
      | (None, f1) \<Rightarrow>
          (case ffTruncate 0 f1 of
             (Some err, f2) \<Rightarrow> (Some err, dr\<lparr>devFile := f2\<rparr>)
           | (None, f2) \<Rightarrow>
               (case ffWrite (maxSpeedVal dr) f2 of (err, f3) \<Rightarrow> (err, dr\<lparr>devFile := f3\<rparr>))))"

definition setSpeedMin :: "Driver \<Rightarrow> error option \<times> Driver" where
  "setSpeedMin dr =
     (case ffSeek 0 0 (devFile dr) of
        (Some err, f1) \<Rightarrow> (Some err, dr\<lparr>devFile := f1\<rparr>)
      | (None, f1) \<Rightarrow>
          (case ffTruncate 0 f1 of
             (Some err, f2) \<Rightarrow> (Some err, dr\<lparr>devFile := f2\<rparr>)
           | (None, f2) \<Rightarrow>
               (case ffWrite (minSpeedVal dr) f2 of (err, f3) \<Rightarrow> (err, dr\<lparr>devFile := f3\<rparr>))))"

text \<open>
  Go's conversion of a float to an integer type discards the fraction (truncation towards
  zero).
\<close>

definition toDuration :: "real \<Rightarrow> int" where
  "toDuration x = (if x < 0 then \<lceil>x\<rceil> else \<lfloor>x\<rfloor>)"

definition calcDurations :: "Driver \<Rightarrow> real \<Rightarrow> int \<times> int \<times> bool" where
  "calcDurations dr dcRatio =
     (let dcRatio' = (if dcRatio > 1 then 1 else if dcRatio < 0 then 0 else dcRatio);
          up = toDuration (dcRatio' * real_of_int (pwmPeriod dr));
          dn = pwmPeriod dr - up;
          isFlatPulse = (up = pwmPeriod dr \<or> dn = pwmPeriod dr)
      in (dn, up, isFlatPulse))"

definition tryGenSinglePulse :: "int \<Rightarrow> int \<Rightarrow> Driver \<Rightarrow> error option \<times> Driver" where
  "tryGenSinglePulse dn up dr =
     (case setSpeedMin dr of
        (Some err, dr1) \<Rightarrow> (Some (Errorf ''failed to set min speed'' err), dr1)
      | (None, dr1) \<Rightarrow>
          if dn = pwmPeriod dr1 then (None, dr1)
          else
            (case setSpeedMax dr1 of
               (Some err, dr2) \<Rightarrow> (Some (Errorf ''failed to set max speed'' err), dr2)
             | (None, dr2) \<Rightarrow> (None, dr2)))"

definition startAsyncNopPWM :: "Driver \<Rightarrow> Driver" where
  "startAsyncNopPWM dr = dr\<lparr>task := NopPWM\<rparr>"

definition startAsyncPWM :: "int \<Rightarrow> int \<Rightarrow> Driver \<Rightarrow> Driver" where
  "startAsyncPWM dn up dr = dr\<lparr>task := AsyncPWM dn up\<rparr>"

definition isClosed :: "Driver \<Rightarrow> bool" where
  "isClosed dr = closeSignal dr"

text \<open>
  One full cycle of the goroutine of \<^verbatim>\<open>startAsyncPWM\<close>: minimum, sleep, maximum, sleep,
  both errors dropped.  The no-op task and a retired task issue no I/O.
\<close>

definition bgCycle :: "Driver \<Rightarrow> Driver" where
  "bgCycle dr =
     (case task dr of
        AsyncPWM dn up \<Rightarrow> snd (setSpeedMax (snd (setSpeedMin dr)))
      | _ \<Rightarrow> dr)"

definition SetDutyCycle :: "real \<Rightarrow> Driver \<Rightarrow> error option \<times> Driver" where
  "SetDutyCycle dcRatio dr =
     (if isClosed dr then (Some ErrFanDriverClosed, dr)
      else
        (let dr0 = dr\<lparr>task := NoTask\<rparr>;
             (durationDn, durationUp, isFlatPulse) = calcDurations dr0 dcRatio;
             (err, dr1) = tryGenSinglePulse durationDn durationUp dr0;
             dr2 = (if err \<noteq> None \<or> isFlatPulse then startAsyncNopPWM dr1 else dr1)
         in case err of
              Some e \<Rightarrow> (Some (Errorf ''generating initial pulse'' e), dr2)
            | None \<Rightarrow>
                if isFlatPulse then (None, dr2)
                else (None, startAsyncPWM durationDn durationUp dr2)))"

definition Close :: "Driver \<Rightarrow> error option \<times> Driver" where
  "Close dr =
     (if isClosed dr then (Some ErrFanDriverClosed, dr)
      else
        (let dr0 = dr\<lparr>closeSignal := True, task := NoTask\<rparr>;
             (err1, dr1) = setSpeedMax dr0;
             (err2, f2) = ffClose (devFile dr1);
             dr2 = dr1\<lparr>devFile := f2\<rparr>
         in case err1 of
              Some e1 \<Rightarrow>
                (Some (Errorf ''failed to set fan speed to max while closing driver'' e1), dr2)
            | None \<Rightarrow>
                (case err2 of
                   Some e2 \<Rightarrow>
                     (Some (Errorf ''failed to close device file while closing driver'' e2), dr2)
                 | None \<Rightarrow> (None, dr2))))"

text \<open>
  The driver that \<^verbatim>\<open>New\<close> returns when no option is given, on a device whose calls all
  succeed: values "0" and "255", a period of 50 milliseconds, the no-op task running.
\<close>

definition okFile :: fakeFile where
  "okFile = \<lparr>calls = [], onSeekErrs = [], onTruncateErrs = [], onWriteErrs = [], onCloseErrs = []\<rparr>"

definition newDriver :: "string \<Rightarrow> fakeFile \<Rightarrow> Driver" where
  "newDriver filename f =
     \<lparr>name = filename, devFile = f, minSpeedVal = ''0'', maxSpeedVal = ''255'',
      pwmPeriod = 50 * 1000000, task = NopPWM, closeSignal = False\<rparr>"

text \<open>
  The constructor with its options.  Opening the file is an input: the error of
  \<^verbatim>\<open>os.OpenFile\<close>, or the open device.  A nil option is skipped.
\<close>

datatype fanpwm_Option =
    OptPeriodPWM int
  | OptMinSpeedValue string
  | OptMaxSpeedValue string
  | fanpwm_OptName string

fun fanpwm_applyOption :: "fanpwm_Option \<Rightarrow> Driver \<Rightarrow> Driver" where
  "fanpwm_applyOption (OptPeriodPWM d) dr =
     dr\<lparr>pwmPeriod := (if d \<le> 0 then 50 * 1000000 else d)\<rparr>"
| "fanpwm_applyOption (OptMinSpeedValue val) dr =
     dr\<lparr>minSpeedVal := (if val = [] then ''0'' else val)\<rparr>"
| "fanpwm_applyOption (OptMaxSpeedValue val) dr =
     dr\<lparr>maxSpeedVal := (if val = [] then ''255'' else val)\<rparr>"
| "fanpwm_applyOption (fanpwm_OptName n) dr = (if n \<noteq> [] then dr\<lparr>name := n\<rparr> else dr)"

fun fanpwm_applyOptions :: "fanpwm_Option option list \<Rightarrow> Driver \<Rightarrow> Driver" where
  "fanpwm_applyOptions [] dr = dr"
| "fanpwm_applyOptions (None # options) dr = fanpwm_applyOptions options dr"
| "fanpwm_applyOptions (Some opt # options) dr =
     fanpwm_applyOptions options (fanpwm_applyOption opt dr)"

definition fanpwm_New :: "string \<Rightarrow> fanpwm_Option option list \<Rightarrow> error + fakeFile \<Rightarrow> error + Driver" where
  "fanpwm_New filename options opened =
     (case opened of
        Inl err \<Rightarrow> Inl err
      | Inr f \<Rightarrow>
          Inr (startAsyncNopPWM (fanpwm_applyOptions options
                 \<lparr>name = filename, devFile = f, minSpeedVal = ''0'', maxSpeedVal = ''255'',
                  pwmPeriod = 50 * 1000000, task = NoTask, closeSignal = False\<rparr>)))"

text \<open>A device whose first Seek and whose Close both fail.\<close>

definition failingFile :: fakeFile where
  "failingFile = okFile\<lparr>onSeekErrs := [Some (ErrorsNew ''seek failed'')],
                         onCloseErrs := [Some (ErrorsNew ''close failed'')]\<rparr>"

subsection \<open>Runs of the driver\<close>

text \<open>
  What can happen to a driver: a call of \<^verbatim>\<open>SetDutyCycle\<close>, a call of \<^verbatim>\<open>Close\<close>, or one
  full cycle of the background task.  A run applies a list of such events in order and
  collects what each call returned (a background cycle returns nothing to anybody).
\<close>

datatype drv_event = EvSetDutyCycle real | EvClose | EvBgCycle

fun drvStep :: "drv_event \<Rightarrow> Driver \<Rightarrow> error option \<times> Driver" where
  "drvStep (EvSetDutyCycle r) dr = SetDutyCycle r dr"
| "drvStep EvClose dr = Close dr"
| "drvStep EvBgCycle dr = (None, bgCycle dr)"

fun drvRun :: "drv_event list \<Rightarrow> Driver \<Rightarrow> error option list \<times> Driver" where
  "drvRun [] dr = ([], dr)"
| "drvRun (ev # evs) dr =
     (case drvStep ev dr of (err, dr1) \<Rightarrow>
        (case drvRun evs dr1 of (errs, dr2) \<Rightarrow> (err # errs, dr2)))"

text \<open>What a closed driver answers to an event.\<close>

definition closedReply :: "drv_event \<Rightarrow> error option" where
  "closedReply ev = (case ev of EvBgCycle \<Rightarrow> None | _ \<Rightarrow> Some ErrFanDriverClosed)"

section \<open>The thermal controller (package heatsink)\<close>

subsection \<open>Collaborators\<close>

text \<open>
  The controller reaches its fan and its sensors through the interfaces \<^verbatim>\<open>FanDriver\<close> and
  \<^verbatim>\<open>ThermoSensor\<close>.  The models are the repository's \<^verbatim>\<open>fakeFanDriver\<close> and
  \<^verbatim>\<open>fakeThermoSensor\<close>: each method pops the next scripted result (the zero value and nil
  when a list is empty) and counts or records the call.  Every finite sequence of results
  that an implementation can return is the script of some fake.
\<close>

record fakeFanDriver =
  argSetDutyCycle :: "real list"
  onSetDutyCycleErrs :: "error option list"
  fan_numCloseCalls :: nat
  fan_onCloseErrs :: "error option list"
  fan_onName :: string

definition fanSetDutyCycle :: "real \<Rightarrow> fakeFanDriver \<Rightarrow> error option \<times> fakeFanDriver" where
  "fanSetDutyCycle dcRatio ffd =
     (let ffd1 = ffd\<lparr>argSetDutyCycle := argSetDutyCycle ffd @ [dcRatio]\<rparr>
      in case onSetDutyCycleErrs ffd1 of
           [] \<Rightarrow> (None, ffd1)
         | e # es \<Rightarrow> (e, ffd1\<lparr>onSetDutyCycleErrs := es\<rparr>))"

definition fanClose :: "fakeFanDriver \<Rightarrow> error option \<times> fakeFanDriver" where
  "fanClose ffd =
     (let ffd1 = ffd\<lparr>fan_numCloseCalls := fan_numCloseCalls ffd + 1\<rparr>
      in case fan_onCloseErrs ffd1 of
           [] \<Rightarrow> (None, ffd1)
         | e # es \<Rightarrow> (e, ffd1\<lparr>fan_onCloseErrs := es\<rparr>))"

record fakeThermoSensor =
  onTemperatureErrs :: "error option list"
  onTemperatureVals :: "real list"
  ts_onCloseErrs :: "error option list"
  ts_numCloseCalls :: nat
  ts_onName :: string

definition sensorTemperature :: "fakeThermoSensor \<Rightarrow> (real \<times> error option) \<times> fakeThermoSensor" where
  "sensorTemperature fts =
     (let (temp, fts1) =
            (case onTemperatureVals fts of
               [] \<Rightarrow> (0, fts)
             | v # vs \<Rightarrow> (v, fts\<lparr>onTemperatureVals := vs\<rparr>))
      in case onTemperatureErrs fts1 of
           [] \<Rightarrow> ((temp, None), fts1)
         | e # es \<Rightarrow> ((temp, e), fts1\<lparr>onTemperatureErrs := es\<rparr>))"

definition sensorClose :: "fakeThermoSensor \<Rightarrow> error option \<times> fakeThermoSensor" where
  "sensorClose fts =
     (let fts1 = fts\<lparr>ts_numCloseCalls := ts_numCloseCalls fts + 1\<rparr>
      in case ts_onCloseErrs fts1 of
           [] \<Rightarrow> (None, fts1)
         | e # es \<Rightarrow> (e, fts1\<lparr>ts_onCloseErrs := es\<rparr>))"

text \<open>
  Fans and sensors are objects that the configuration and the controller hold by pointer,
  and the same sensor can be listed twice.  A pointer is an address (\<open>nat\<close>), a nil pointer
  is \<open>None\<close>, and the objects live in a store.
\<close>

type_synonym ref = nat

record objects =
  fans :: "ref \<Rightarrow> fakeFanDriver"
  therms :: "ref \<Rightarrow> fakeThermoSensor"

subsection \<open>The duty-cycle interface\<close>

text \<open>
  \<^verbatim>\<open>dutyCycler\<close> has three implementations: the two of dutycyclers.go and the tests'
  \<^verbatim>\<open>fakeDutyCycler\<close>, a Go map whose lookup of a missing key gives 0.
\<close>

datatype dutyCycler =
    Linear dutyCyclerLinear
  | PowPi dutyCyclerPowPi
  | FakeDutyCycler "(real \<times> real) list"

fun ratio :: "dutyCycler \<Rightarrow> real \<Rightarrow> real" where
  "ratio (Linear dc) temp = ratioLinear dc temp"
| "ratio (PowPi dc) temp = ratioPowPi dc temp"
| "ratio (FakeDutyCycler tmpToDC) temp = (case map_of tmpToDC temp of None \<Rightarrow> 0 | Some r \<Rightarrow> r)"

subsection \<open>Configuration and construction\<close>

record Config =
  Fan :: "ref option"
  Sensors :: "ref option list"
  MinTemperature :: real
  MaxTemperature :: real

definition validate :: "Config \<Rightarrow> error option" where
  "validate c =
     (if Fan c = None then Some errNoFan
      else if length (Sensors c) = 0 then Some errNoSensors
      else if None \<in> set (Sensors c) then Some errNilSensor
      else if MinTemperature c \<ge> MaxTemperature c then Some errBadTemps
      else None)"

text \<open>
  The controller.  The logger and the mutex are not fields of the model: the default logger
  discards its messages, and the mutex makes each call of \<^verbatim>\<open>StopThermalControl\<close> atomic,
  which a function from state to state is.  \<open>isStopped\<close> is \<open>True\<close> once the channel of
  that name is closed.
\<close>

record Heatsink =
  hs_name :: string
  sensors :: "ref list"
  fan :: ref
  dcCalc :: dutyCycler
  chkPeriod :: int
  isStopped :: bool

datatype fanResponse = FanResponsePowPi | FanResponseLinear

datatype Option =
    OptFanResponse fanResponse
  | OptTemperatureCheckPeriod int
  | OptLogger
  | OptName string

fun applyOption :: "Option \<Rightarrow> Config \<Rightarrow> Heatsink \<Rightarrow> Heatsink" where
  "applyOption (OptFanResponse meth) config hs =
     (case meth of
        FanResponseLinear \<Rightarrow>
          hs\<lparr>dcCalc := Linear (newDutyCyclerLinear (MinTemperature config) (MaxTemperature config))\<rparr>
      | _ \<Rightarrow>
          hs\<lparr>dcCalc := PowPi (newDutyCyclerPowPi (MinTemperature config) (MaxTemperature config))\<rparr>)"
| "applyOption (OptTemperatureCheckPeriod d) config hs = (if d > 0 then hs\<lparr>chkPeriod := d\<rparr> else hs)"
| "applyOption OptLogger config hs = hs"
| "applyOption (OptName n) config hs = (if n \<noteq> [] then hs\<lparr>hs_name := n\<rparr> else hs)"

fun applyOptions :: "Option option list \<Rightarrow> Config \<Rightarrow> Heatsink \<Rightarrow> Heatsink" where
  "applyOptions [] config hs = hs"
| "applyOptions (None # options) config hs = applyOptions options config hs"
| "applyOptions (Some opt # options) config hs = applyOptions options config (applyOption opt config hs)"

definition New :: "Config option \<Rightarrow> Option option list \<Rightarrow> objects \<Rightarrow> error + Heatsink" where
  "New config options h =
     (case config of
        None \<Rightarrow> Inl errNoConfig
      | Some c \<Rightarrow>
          (case validate c of
             Some err \<Rightarrow> Inl (Errorf ''invalid configuration'' err)
           | None \<Rightarrow>
               Inr (applyOptions options c
                 \<lparr>hs_name = ''heatsink/'' @ fan_onName (fans h (the (Fan c))),
                  sensors = map the (Sensors c),
                  fan = the (Fan c),
                  dcCalc = PowPi (newDutyCyclerPowPi (MinTemperature c) (MaxTemperature c)),
                  chkPeriod = 1000000000,
                  isStopped = False\<rparr>)))"

subsection \<open>Stopping\<close>

fun closeSensors :: "ref list \<Rightarrow> error list \<times> objects \<Rightarrow> error list \<times> objects" where
  "closeSensors [] (errs, h) = (errs, h)"
| "closeSensors (a # as) (errs, h) =
     (case sensorClose (therms h a) of
        (err, s1) \<Rightarrow>
          closeSensors as
            ((case err of
                Some e \<Rightarrow> errs @ [Errorf ''error closing sensor'' e]
              | None \<Rightarrow> errs),
             h\<lparr>therms := (therms h)(a := s1)\<rparr>))"

definition StopThermalControl :: "Heatsink \<Rightarrow> objects \<Rightarrow> error option \<times> Heatsink \<times> objects" where
  "StopThermalControl hs h =
     (if isStopped hs then (Some ErrControllerStopped, hs, h)
      else
        (let hs1 = hs\<lparr>isStopped := True\<rparr>;
             (ferr, fan1) = fanClose (fans h (fan hs1));
             h1 = h\<lparr>fans := (fans h)(fan hs1 := fan1)\<rparr>;
             errs0 = (case ferr of Some e \<Rightarrow> [Errorf ''error closing fan'' e] | None \<Rightarrow> []);
             (errs, h2) = closeSensors (sensors hs1) (errs0, h1)
         in if length errs > 0 then (Some (multiErrs errs), hs1, h2) else (None, hs1, h2)))"

subsection \<open>Reading the sensors\<close>

text \<open>
  \<^verbatim>\<open>math.SmallestNonzeroFloat64\<close> is \<open>2^-1074\<close>, the least positive float;
  \<^verbatim>\<open>math.MaxFloat64\<close> is \<open>2^1024 - 2^971\<close>.
\<close>

definition SmallestNonzeroFloat64 :: real where
  "SmallestNonzeroFloat64 = 1 / 2 ^ 1074"

definition MaxFloat64 :: real where
  "MaxFloat64 = 2 ^ 1024 - 2 ^ 971"

definition sensorErrContext :: "string \<Rightarrow> string" where
  "sensorErrContext n = ''thermo sensor '' @ [CHR 0x27] @ n @ [CHR 0x27]"

fun maxCoreTemp_loop :: "ref list \<Rightarrow> real \<times> error list \<times> objects \<Rightarrow> real \<times> error list \<times> objects" where
  "maxCoreTemp_loop [] (mx, errs, h) = (mx, errs, h)"
| "maxCoreTemp_loop (a # as) (mx, errs, h) =
     (case sensorTemperature (therms h a) of
        ((temp, err), s1) \<Rightarrow>
          (let h1 = h\<lparr>therms := (therms h)(a := s1)\<rparr>
           in case err of
                Some e \<Rightarrow>
                  maxCoreTemp_loop as
                    (mx, errs @ [Errorf (sensorErrContext (ts_onName (therms h1 a))) e], h1)
              | None \<Rightarrow>
                  maxCoreTemp_loop as ((if temp > mx then temp else mx), errs, h1)))"

definition maxCoreTemp :: "Heatsink \<Rightarrow> objects \<Rightarrow> (real \<times> error option) \<times> objects" where
  "maxCoreTemp hs h =
     (case maxCoreTemp_loop (sensors hs) (SmallestNonzeroFloat64, [], h) of
        (mx, errs, h1) \<Rightarrow>
          if length errs = length (sensors hs) then ((MaxFloat64, Some (multiErrs errs)), h1)
          else ((mx, None), h1))"

subsection \<open>The control loop\<close>

text \<open>
  \<^verbatim>\<open>StartThermalControl\<close> loops until a sensor cycle or the fan fails, or until it finds
  the stop signal set, which only a call of \<^verbatim>\<open>StopThermalControl\<close> from another goroutine
  can do while the loop runs.  What the other goroutines do is an input of the model: a
  schedule with one entry for each iteration, \<open>True\<close> when \<^verbatim>\<open>StopThermalControl\<close> has been
  called from outside since the previous iteration.  A schedule that ends while the loop
  is still going gives \<open>StillRunning\<close>: the call has not returned.  The sleep between two
  iterations is not modelled.
\<close>

datatype outcome = StillRunning | Returned "error option"

fun thermalLoop :: "bool list \<Rightarrow> Heatsink \<Rightarrow> objects \<Rightarrow> outcome \<times> Heatsink \<times> objects" where
  "thermalLoop [] hs h = (StillRunning, hs, h)"
| "thermalLoop (stopRequested # sched) hs h =
     (case (if stopRequested then snd (StopThermalControl hs h) else (hs, h)) of
        (hs1, h1) \<Rightarrow>
          if isStopped hs1 then (Returned (Some ErrControllerStopped), hs1, h1)
          else
            (case maxCoreTemp hs1 h1 of
               ((temp, Some err), h2) \<Rightarrow>
                 (Returned (Some (Errorf ''determining max core temperature'' err)), hs1, h2)
             | ((temp, None), h2) \<Rightarrow>
                 (case fanSetDutyCycle (ratio (dcCalc hs1) temp) (fans h2 (fan hs1)) of
                    (Some err, fan1) \<Rightarrow>
                      (Returned (Some (Errorf ''setting fan's duty cycle'' err)), hs1,
                       h2\<lparr>fans := (fans h2)(fan hs1 := fan1)\<rparr>)
                  | (None, fan1) \<Rightarrow>
                      thermalLoop sched hs1 (h2\<lparr>fans := (fans h2)(fan hs1 := fan1)\<rparr>))))"

definition StartThermalControl :: "bool list \<Rightarrow> Heatsink \<Rightarrow> objects \<Rightarrow> outcome \<times> Heatsink \<times> objects" where
  "StartThermalControl sched hs h =
     (case thermalLoop sched hs h of
        (StillRunning, hs1, h1) \<Rightarrow> (StillRunning, hs1, h1)
      | (Returned err, hs1, h1) \<Rightarrow>
          (case StopThermalControl hs1 h1 of (cerr, hs2, h2) \<Rightarrow> (Returned err, hs2, h2)))"

text \<open>
  The results that the \<^verbatim>\<open>Temperature\<close> calls of one cycle return, in the order of the
  sensor list (a sensor listed twice is read twice).
\<close>

fun sensorReads :: "ref list \<Rightarrow> objects \<Rightarrow> (real \<times> error option) list" where
  "sensorReads [] h = []"
| "sensorReads (a # as) h =
     (case sensorTemperature (therms h a) of
        (r, s1) \<Rightarrow> r # sensorReads as (h\<lparr>therms := (therms h)(a := s1)\<rparr>))"

subsection \<open>What one cycle and one teardown meet\<close>

text \<open>
  Functions used to state the results only.  \<open>failures\<close> keeps the non-nil entries of a
  list of results; \<open>sensorCloses\<close> lists what the \<^verbatim>\<open>Close\<close> calls of one teardown return,
  in the order of the sensor list; \<open>closeFailures\<close> is every failure of one teardown, the
  fan's first, each wrapped as \<^verbatim>\<open>StopThermalControl\<close> wraps it.
\<close>

fun failures :: "error option list \<Rightarrow> error list" where
  "failures [] = []"
| "failures (None # rs) = failures rs"
| "failures (Some e # rs) = e # failures rs"

fun sensorCloses :: "ref list \<Rightarrow> objects \<Rightarrow> error option list" where
  "sensorCloses [] h = []"
| "sensorCloses (a # as) h =
     (case sensorClose (therms h a) of
        (r, s1) \<Rightarrow> r # sensorCloses as (h\<lparr>therms := (therms h)(a := s1)\<rparr>))"

definition closeFailures :: "Heatsink \<Rightarrow> objects \<Rightarrow> error list" where
  "closeFailures hs h =
     map (Errorf ''error closing fan'') (failures [fst (fanClose (fans h (fan hs)))])
     @ map (Errorf ''error closing sensor'')
         (failures (sensorCloses (sensors hs)
            (h\<lparr>fans := (fans h)(fan hs := snd (fanClose (fans h (fan hs))))\<rparr>)))"

text \<open>
  \<open>readError\<close> is the entry that a failed read adds to the errors of a cycle, and
  \<open>keepMax\<close> is the update of the running maximum by one read.
\<close>

definition readError :: "(ref \<Rightarrow> string) \<Rightarrow> ref \<Rightarrow> real \<times> error option \<Rightarrow> error list" where
  "readError N a r =
     (case snd r of Some e \<Rightarrow> [Errorf (sensorErrContext (N a)) e] | None \<Rightarrow> [])"

definition keepMax :: "real \<Rightarrow> real \<times> error option \<Rightarrow> real" where
  "keepMax m r = (if snd r = None \<and> fst r > m then fst r else m)"

subsection \<open>Scenarios\<close>

text \<open>
  Concrete fans, sensors and controllers, after the repository's tests: fakes with empty
  scripts, a controller over given sensors with the fan at address 0, two sensors
  reading 36 and 40, two sensors whose reads fail, a fan and two of three sensors whose
  close fails, one sensor reading 5 degrees below zero, and a configuration that lists
  the same sensor twice.
\<close>

definition freshFan :: fakeFanDriver where
  "freshFan = \<lparr>argSetDutyCycle = [], onSetDutyCycleErrs = [], fan_numCloseCalls = 0,
               fan_onCloseErrs = [], fan_onName = ''cpu-fan1''\<rparr>"

definition freshSensor :: fakeThermoSensor where
  "freshSensor = \<lparr>onTemperatureErrs = [], onTemperatureVals = [], ts_onCloseErrs = [],
                  ts_numCloseCalls = 0, ts_onName = ''core''\<rparr>"

definition testHeatsink :: "ref list \<Rightarrow> dutyCycler \<Rightarrow> Heatsink" where
  "testHeatsink ss dc =
     \<lparr>hs_name = ''heatsink/cpu-fan1'', sensors = ss, fan = 0, dcCalc = dc,
      chkPeriod = 1000000000, isStopped = False\<rparr>"

definition freshObjects :: objects where
  "freshObjects = \<lparr>fans = (\<lambda>a. freshFan), therms = (\<lambda>a. freshSensor)\<rparr>"

definition readingObjects :: objects where
  "readingObjects =
     \<lparr>fans = (\<lambda>a. freshFan),
      therms = (\<lambda>a. freshSensor)
        (11 := freshSensor\<lparr>onTemperatureVals := [36]\<rparr>,
         12 := freshSensor\<lparr>onTemperatureVals := [40]\<rparr>)\<rparr>"

definition failingObjects :: objects where
  "failingObjects =
     \<lparr>fans = (\<lambda>a. freshFan),
      therms = (\<lambda>a. freshSensor)
        (11 := freshSensor\<lparr>onTemperatureErrs := [Some (ErrorsNew ''simulated error reading from sensor 1'')]\<rparr>,
         12 := freshSensor\<lparr>onTemperatureErrs := [Some (ErrorsNew ''simulated error reading from sensor 2'')]\<rparr>)\<rparr>"

definition closeErrObjects :: objects where
  "closeErrObjects =
     \<lparr>fans = (\<lambda>a. freshFan\<lparr>fan_onCloseErrs := [Some (ErrorsNew ''simulated error for closing fan'')]\<rparr>),
      therms = (\<lambda>a. freshSensor)
        (11 := freshSensor\<lparr>ts_onCloseErrs := [Some (ErrorsNew ''simulated error for closing sensor 1'')]\<rparr>,
         13 := freshSensor\<lparr>ts_onCloseErrs := [Some (ErrorsNew ''simulated error for closing sensor 3'')]\<rparr>)\<rparr>"

definition coldObjects :: objects where
  "coldObjects =
     \<lparr>fans = (\<lambda>a. freshFan),
      therms = (\<lambda>a. freshSensor)(11 := freshSensor\<lparr>onTemperatureVals := [- 5]\<rparr>)\<rparr>"

definition dupConfig :: Config where
  "dupConfig = \<lparr>Fan = Some 0, Sensors = [Some 11, Some 11],
                MinTemperature = 10, MaxTemperature = 20\<rparr>"


section \<open>Results on the duty-cycle functions\<close>

lemma fraction_bounds:
  fixes t lo hi :: real
  assumes "lo < t" and "t < hi"
  shows "0 \<le> (t - lo) / (hi - lo)" and "(t - lo) / (hi - lo) \<le> 1"
proof -
  have d: "0 < hi - lo" using assms by simp
  show "0 \<le> (t - lo) / (hi - lo)" using assms d by simp
  show "(t - lo) / (hi - lo) \<le> 1" using assms d by (simp add: divide_le_eq)
qed

lemma ratioLinear_clamp:
  assumes "minTemp < maxTemp"
  shows "ratioLinear (newDutyCyclerLinear minTemp maxTemp) t
           = clamp ((t - minTemp) / (maxTemp - minTemp)) 0 1"
proof -
  have d: "0 < maxTemp - minTemp" using assms by simp
  consider "maxTemp \<le> t" | "t \<le> minTemp" | "minTemp < t" "t < maxTemp" by linarith
  then show ?thesis
  proof cases
    case 1
    then have "1 \<le> (t - minTemp) / (maxTemp - minTemp)" using d by (simp add: le_divide_eq)
    then show ?thesis using 1 by (simp add: ratioLinear_def newDutyCyclerLinear_def clamp_def)
  next
    case 2
    then have "(t - minTemp) / (maxTemp - minTemp) \<le> 0" using d by (simp add: divide_le_0_iff)
    then show ?thesis
      using 2 assms by (simp add: ratioLinear_def newDutyCyclerLinear_def clamp_def)
  next
    case 3
    then show ?thesis
      using fraction_bounds [OF 3]
      by (simp add: ratioLinear_def newDutyCyclerLinear_def clamp_def)
  qed
qed

lemma ratioLinear_range:
  "0 \<le> ratioLinear (newDutyCyclerLinear minTemp maxTemp) t
   \<and> ratioLinear (newDutyCyclerLinear minTemp maxTemp) t \<le> 1"
proof (cases "maxTemp \<le> t \<or> t \<le> minTemp")
  case True
  then show ?thesis by (auto simp: ratioLinear_def newDutyCyclerLinear_def)
next
  case False
  then have lt: "minTemp < t" "t < maxTemp" by auto
  show ?thesis
    using False fraction_bounds [OF lt] by (simp add: ratioLinear_def newDutyCyclerLinear_def)
qed

lemma ratioPowPi_range:
  "0 \<le> ratioPowPi (newDutyCyclerPowPi minTemp maxTemp) t
   \<and> ratioPowPi (newDutyCyclerPowPi minTemp maxTemp) t \<le> 1"
proof (cases "maxTemp \<le> t \<or> t \<le> minTemp")
  case True
  then show ?thesis by (auto simp: ratioPowPi_def newDutyCyclerPowPi_def)
next
  case False
  then have lt: "minTemp < t" "t < maxTemp" by auto
  define x where "x = (t - minTemp) / (maxTemp - minTemp)"
  have "0 \<le> x" and "x \<le> 1" using fraction_bounds [OF lt] by (simp_all add: x_def)
  then have "\<bar>x\<bar> \<le> 1" by simp
  then have "x powr pi \<le> 1" by (rule powr_le1 [OF pi_ge_zero])
  then show ?thesis using False by (simp add: ratioPowPi_def newDutyCyclerPowPi_def x_def)
qed

text \<open>
  Claim C5.  For calibration bounds with \<open>minTemp < maxTemp\<close> (the invariant that
  \<^verbatim>\<open>Config.validate\<close> enforces) and every temperature \<open>t\<close>: the linear function returns
  \<open>clamp ((t - minTemp) / (maxTemp - minTemp)) 0 1\<close>; the linear and the power-pi function
  both return exactly 0 when \<open>t \<le> minTemp\<close> and exactly 1 when \<open>t \<ge> maxTemp\<close>; and
  neither returns a value outside the interval from 0 to 1.
\<close>

theorem C5_duty_cycle_functions:
  assumes "minTemp < maxTemp"
  shows "ratioLinear (newDutyCyclerLinear minTemp maxTemp) t
           = clamp ((t - minTemp) / (maxTemp - minTemp)) 0 1
       \<and> (t \<le> minTemp \<longrightarrow>
            ratioLinear (newDutyCyclerLinear minTemp maxTemp) t = 0
            \<and> ratioPowPi (newDutyCyclerPowPi minTemp maxTemp) t = 0)
       \<and> (t \<ge> maxTemp \<longrightarrow>
            ratioLinear (newDutyCyclerLinear minTemp maxTemp) t = 1
            \<and> ratioPowPi (newDutyCyclerPowPi minTemp maxTemp) t = 1)
       \<and> 0 \<le> ratioLinear (newDutyCyclerLinear minTemp maxTemp) t
       \<and> ratioLinear (newDutyCyclerLinear minTemp maxTemp) t \<le> 1
       \<and> 0 \<le> ratioPowPi (newDutyCyclerPowPi minTemp maxTemp) t
       \<and> ratioPowPi (newDutyCyclerPowPi minTemp maxTemp) t \<le> 1"
proof -
  have lo: "t \<le> minTemp \<longrightarrow>
            ratioLinear (newDutyCyclerLinear minTemp maxTemp) t = 0
            \<and> ratioPowPi (newDutyCyclerPowPi minTemp maxTemp) t = 0"
    using assms
    by (simp add: ratioLinear_def newDutyCyclerLinear_def ratioPowPi_def newDutyCyclerPowPi_def)
  have hi: "t \<ge> maxTemp \<longrightarrow>
            ratioLinear (newDutyCyclerLinear minTemp maxTemp) t = 1
            \<and> ratioPowPi (newDutyCyclerPowPi minTemp maxTemp) t = 1"
    by (simp add: ratioLinear_def newDutyCyclerLinear_def ratioPowPi_def newDutyCyclerPowPi_def)
  show ?thesis
    using ratioLinear_clamp [OF assms, of t] lo hi
      ratioLinear_range [of minTemp maxTemp t] ratioPowPi_range [of minTemp maxTemp t]
    by blast
qed

text \<open>
  The theorem at the calibration points 10 and 20 of the repository's tests: below the
  minimum, between the bounds, and above the maximum.
\<close>

theorem C5_duty_cycle_functions_witness:
  "(10::real) < 20
   \<and> ratioLinear (newDutyCyclerLinear 10 20) 15 = 1 / 2
   \<and> ratioLinear (newDutyCyclerLinear 10 20) 9 = 0
   \<and> ratioPowPi (newDutyCyclerPowPi 10 20) 9 = 0
   \<and> ratioLinear (newDutyCyclerLinear 10 20) 25 = 1
   \<and> ratioPowPi (newDutyCyclerPowPi 10 20) 25 = 1"
proof -
  have h: "(10::real) < 20" by simp
  have a: "ratioLinear (newDutyCyclerLinear 10 20) 15 = 1 / 2"
    using C5_duty_cycle_functions [OF h, of 15] by (simp add: clamp_def)
  have b: "ratioLinear (newDutyCyclerLinear 10 20) 9 = 0
           \<and> ratioPowPi (newDutyCyclerPowPi 10 20) 9 = 0"
    using C5_duty_cycle_functions [OF h, of 9] by simp
  have c: "ratioLinear (newDutyCyclerLinear 10 20) 25 = 1
           \<and> ratioPowPi (newDutyCyclerPowPi 10 20) 25 = 1"
    using C5_duty_cycle_functions [OF h, of 25] by simp
  show ?thesis using h a b c by simp
qed

section \<open>Results on the pulse split\<close>

lemma toDuration_nonneg: "0 \<le> x \<Longrightarrow> toDuration x = \<lfloor>x\<rfloor>"
  by (simp add: toDuration_def)

text \<open>
  For a period that is not negative (every period that \<^verbatim>\<open>New\<close> and \<^verbatim>\<open>OptPeriodPWM\<close>
  can set is positive), both durations lie between zero and the period.
\<close>

lemma clamp_unit: "(if r > 1 then 1 else if r < 0 then 0 else r) = clamp r 0 1"
  by (simp add: clamp_def)

lemma calcDurations_eq:
  "calcDurations dr r =
     (pwmPeriod dr - toDuration (clamp r 0 1 * real_of_int (pwmPeriod dr)),
      toDuration (clamp r 0 1 * real_of_int (pwmPeriod dr)),
      toDuration (clamp r 0 1 * real_of_int (pwmPeriod dr)) = pwmPeriod dr
      \<or> pwmPeriod dr - toDuration (clamp r 0 1 * real_of_int (pwmPeriod dr)) = pwmPeriod dr)"
  unfolding calcDurations_def clamp_unit by (simp add: Let_def)

lemma calcDurations_bounds:
  assumes "0 \<le> pwmPeriod dr" and "calcDurations dr r = (dn, up, flat)"
  shows "0 \<le> up \<and> up \<le> pwmPeriod dr \<and> 0 \<le> dn \<and> dn \<le> pwmPeriod dr"
proof -
  define c where "c = clamp r 0 1"
  have c01: "0 \<le> c" "c \<le> 1" by (simp_all add: c_def clamp_def)
  have p: "0 \<le> real_of_int (pwmPeriod dr)" using assms(1) by simp
  have lo: "0 \<le> c * real_of_int (pwmPeriod dr)" using c01 p by simp
  have hi: "c * real_of_int (pwmPeriod dr) \<le> real_of_int (pwmPeriod dr)"
    using c01 p by (simp add: mult_left_le_one_le)
  have up: "up = \<lfloor>c * real_of_int (pwmPeriod dr)\<rfloor>"
    using assms(2) toDuration_nonneg [OF lo] by (simp add: calcDurations_eq c_def)
  have dn: "dn = pwmPeriod dr - up"
    using assms(2) by (simp add: calcDurations_eq)
  have "0 \<le> up" using up lo by simp
  moreover have "up \<le> pwmPeriod dr" using up hi by (simp add: floor_le_iff)
  ultimately show ?thesis using dn by simp
qed



section \<open>Results on the driver\<close>

subsection \<open>Construction\<close>

text \<open>
  Every driver that the constructor returns is open, runs the no-op task and has a
  positive period.
\<close>

lemma fanpwm_New_defaults: "fanpwm_New filename [] (Inr f) = Inr (newDriver filename f)"
  by (simp add: fanpwm_New_def newDriver_def startAsyncNopPWM_def)

lemma fanpwm_applyOption_inv:
  "0 < pwmPeriod dr \<and> \<not> closeSignal dr
     \<Longrightarrow> 0 < pwmPeriod (fanpwm_applyOption opt dr) \<and> \<not> closeSignal (fanpwm_applyOption opt dr)"
  by (cases opt) simp_all

lemma fanpwm_applyOptions_inv:
  "0 < pwmPeriod dr \<and> \<not> closeSignal dr
     \<Longrightarrow> 0 < pwmPeriod (fanpwm_applyOptions options dr)
         \<and> \<not> closeSignal (fanpwm_applyOptions options dr)"
proof (induction options dr rule: fanpwm_applyOptions.induct)
  case (1 dr)
  then show ?case by simp
next
  case (2 options dr)
  then show ?case by simp
next
  case (3 opt options dr)
  then show ?case using fanpwm_applyOption_inv [of dr opt] by simp
qed

lemma fanpwm_New_open:
  assumes "fanpwm_New filename options opened = Inr dr"
  shows "0 < pwmPeriod dr \<and> \<not> isClosed dr \<and> task dr = NopPWM"
proof -
  obtain f where f: "opened = Inr f" using assms by (cases opened) (simp_all add: fanpwm_New_def)
  let ?d0 = "\<lparr>name = filename, devFile = f, minSpeedVal = ''0'', maxSpeedVal = ''255'',
                  pwmPeriod = 50 * 1000000, task = NoTask, closeSignal = False\<rparr>"
  have dr: "dr = startAsyncNopPWM (fanpwm_applyOptions options ?d0)"
    using assms f by (simp add: fanpwm_New_def)
  have "0 < pwmPeriod (fanpwm_applyOptions options ?d0)
         \<and> \<not> closeSignal (fanpwm_applyOptions options ?d0)"
    by (rule fanpwm_applyOptions_inv) simp
  then show ?thesis by (simp add: dr startAsyncNopPWM_def isClosed_def)
qed

subsection \<open>What the level commands issue\<close>


lemma ff_calls:
  "calls (snd (ffSeek off wh ff)) = calls ff @ [CallSeek off wh]"
  "calls (snd (ffTruncate sz ff)) = calls ff @ [CallTruncate sz]"
  "calls (snd (ffWrite b ff)) = calls ff @ [CallWrite b]"
  "calls (snd (ffClose ff)) = calls ff @ [CallClose]"
  by (simp_all add: ffSeek_def ffTruncate_def ffWrite_def ffClose_def split: list.splits)


lemma setSpeedMax_frame:
  "snd (setSpeedMax dr) = dr\<lparr>devFile := devFile (snd (setSpeedMax dr))\<rparr>"
  by (simp add: setSpeedMax_def split: prod.splits option.splits)


lemma setSpeedMax_calls:
  "\<exists>cs. calls (devFile (snd (setSpeedMax dr))) = calls (devFile dr) @ cs
     \<and> (cs = [CallSeek 0 0] \<or> cs = [CallSeek 0 0, CallTruncate 0]
         \<or> cs = [CallSeek 0 0, CallTruncate 0, CallWrite (maxSpeedVal dr)])
     \<and> (fst (setSpeedMax dr) = None \<longrightarrow>
           cs = [CallSeek 0 0, CallTruncate 0, CallWrite (maxSpeedVal dr)])"
  apply (simp add: setSpeedMax_def split: prod.splits option.splits)
  apply (auto simp: ffSeek_def ffTruncate_def ffWrite_def split: list.splits)
  done

lemma closed_SetDutyCycle: "isClosed dr \<Longrightarrow> SetDutyCycle r dr = (Some ErrFanDriverClosed, dr)"
  by (simp add: SetDutyCycle_def)

lemma closed_Close: "isClosed dr \<Longrightarrow> Close dr = (Some ErrFanDriverClosed, dr)"
  by (simp add: Close_def)

lemma Close_closes: "\<not> isClosed dr \<Longrightarrow> isClosed (snd (Close dr)) \<and> task (snd (Close dr)) = NoTask"
  apply (simp add: Close_def Let_def isClosed_def split: prod.splits option.splits)
  apply (auto simp: setSpeedMax_def split: prod.splits option.splits)
  done

lemma closed_step:
  "isClosed dr \<Longrightarrow> task dr = NoTask \<Longrightarrow> drvStep ev dr = (closedReply ev, dr)"
  by (cases ev) (simp_all add: closed_SetDutyCycle closed_Close bgCycle_def closedReply_def)

lemma closed_run:
  "isClosed dr \<Longrightarrow> task dr = NoTask \<Longrightarrow> drvRun evs dr = (map closedReply evs, dr)"
  by (induction evs) (simp_all add: closed_step)




















lemma Close_open:
  assumes "\<not> isClosed dr"
  shows "Close dr =
    (let d1 = snd (setSpeedMax (dr\<lparr>closeSignal := True, task := NoTask\<rparr>));
         d2 = d1\<lparr>devFile := snd (ffClose (devFile d1))\<rparr>
     in (case fst (setSpeedMax (dr\<lparr>closeSignal := True, task := NoTask\<rparr>)) of
           Some e1 \<Rightarrow> Some (Errorf ''failed to set fan speed to max while closing driver'' e1)
         | None \<Rightarrow>
            (case fst (ffClose (devFile d1)) of
               Some e2 \<Rightarrow> Some (Errorf ''failed to close device file while closing driver'' e2)
             | None \<Rightarrow> None), d2))"
proof -
  let ?d0 = "dr\<lparr>closeSignal := True, task := NoTask\<rparr>"
  obtain e1 d1 where m: "setSpeedMax ?d0 = (e1, d1)" by (cases "setSpeedMax ?d0")
  obtain e2 f2 where c: "ffClose (devFile d1) = (e2, f2)" by (cases "ffClose (devFile d1)")
  show ?thesis using assms m c
    by (cases e1; cases e2) (simp_all add: Close_def)
qed

subsection \<open>Flat pulses\<close>


text \<open>Unfolding everything the driver does, to run it on a concrete device.\<close>

lemmas driver_eval =
  newDriver_def okFile_def failingFile_def SetDutyCycle_def Close_def isClosed_def calcDurations_def
  tryGenSinglePulse_def setSpeedMin_def setSpeedMax_def ffSeek_def ffTruncate_def ffWrite_def
  ffClose_def startAsyncNopPWM_def startAsyncPWM_def toDuration_def bgCycle_def Let_def



subsection \<open>Closing the driver\<close>

text \<open>
  Claim C3, as the code has it.  On the first call (the driver is open) \<^verbatim>\<open>Close\<close>
  commands the maximum level (Seek, Truncate, Write of the maximum value, stopping at the
  first of them that fails) and then closes the device handle, whether or not the command
  failed.  The returned error is the failure of the level command when that step failed
  (a failure of the handle's close is then not reported), otherwise the failure of the
  close, otherwise nil.  The driver is closed afterwards.
\<close>

theorem C3_Close_reports_first_error:
  assumes "\<not> isClosed dr"
  shows "(\<exists>cs. calls (devFile (snd (Close dr))) = calls (devFile dr) @ cs @ [CallClose]
              \<and> (cs = [CallSeek 0 0] \<or> cs = [CallSeek 0 0, CallTruncate 0]
                  \<or> cs = [CallSeek 0 0, CallTruncate 0, CallWrite (maxSpeedVal dr)])
              \<and> (fst (setSpeedMax (dr\<lparr>closeSignal := True, task := NoTask\<rparr>)) = None
                    \<longrightarrow> cs = [CallSeek 0 0, CallTruncate 0, CallWrite (maxSpeedVal dr)]))
       \<and> fst (Close dr) =
           (case fst (setSpeedMax (dr\<lparr>closeSignal := True, task := NoTask\<rparr>)) of
              Some e1 \<Rightarrow> Some (Errorf ''failed to set fan speed to max while closing driver'' e1)
            | None \<Rightarrow>
               (case fst (ffClose (devFile (snd (setSpeedMax
                             (dr\<lparr>closeSignal := True, task := NoTask\<rparr>))))) of
                  Some e2 \<Rightarrow>
                    Some (Errorf ''failed to close device file while closing driver'' e2)
                | None \<Rightarrow> None))
       \<and> isClosed (snd (Close dr))"
proof -
  let ?d0 = "dr\<lparr>closeSignal := True, task := NoTask\<rparr>"
  from setSpeedMax_calls [of ?d0]
  obtain cs where cs: "calls (devFile (snd (setSpeedMax ?d0))) = calls (devFile ?d0) @ cs
     \<and> (cs = [CallSeek 0 0] \<or> cs = [CallSeek 0 0, CallTruncate 0]
         \<or> cs = [CallSeek 0 0, CallTruncate 0, CallWrite (maxSpeedVal ?d0)])
     \<and> (fst (setSpeedMax ?d0) = None \<longrightarrow>
           cs = [CallSeek 0 0, CallTruncate 0, CallWrite (maxSpeedVal ?d0)])" ..
  have f: "devFile (snd (Close dr)) = snd (ffClose (devFile (snd (setSpeedMax ?d0))))"
    by (simp add: Close_open [OF assms] Let_def)
  have c: "calls (devFile (snd (Close dr))) = calls (devFile dr) @ cs @ [CallClose]"
    using cs by (simp add: f ff_calls)
  have c2: "cs = [CallSeek 0 0] \<or> cs = [CallSeek 0 0, CallTruncate 0]
                  \<or> cs = [CallSeek 0 0, CallTruncate 0, CallWrite (maxSpeedVal dr)]"
    using cs by simp
  have c3: "fst (setSpeedMax ?d0) = None
                    \<longrightarrow> cs = [CallSeek 0 0, CallTruncate 0, CallWrite (maxSpeedVal dr)]"
    using cs by simp
  have e: "fst (Close dr) =
           (case fst (setSpeedMax ?d0) of
              Some e1 \<Rightarrow> Some (Errorf ''failed to set fan speed to max while closing driver'' e1)
            | None \<Rightarrow>
               (case fst (ffClose (devFile (snd (setSpeedMax ?d0)))) of
                  Some e2 \<Rightarrow>
                    Some (Errorf ''failed to close device file while closing driver'' e2)
                | None \<Rightarrow> None))"
    by (simp add: Close_open [OF assms] Let_def)
  have i: "isClosed (snd (Close dr))" using Close_closes [OF assms] by simp
  show ?thesis using c c2 c3 e i by (intro conjI exI [of _ cs])
qed

text \<open>The theorem on a device whose Seek and Close both fail.\<close>

theorem C3_Close_reports_first_error_witness:
  "\<not> isClosed (newDriver ''pwm1'' failingFile)
   \<and> fst (Close (newDriver ''pwm1'' failingFile))
       = Some (Errorf ''failed to set fan speed to max while closing driver''
                 (ErrorsNew ''seek failed''))
   \<and> isClosed (snd (Close (newDriver ''pwm1'' failingFile)))"
proof -
  have h: "\<not> isClosed (newDriver ''pwm1'' failingFile)" by (simp add: isClosed_def newDriver_def)
  have s: "fst (setSpeedMax (newDriver ''pwm1'' failingFile\<lparr>closeSignal := True, task := NoTask\<rparr>))
            = Some (ErrorsNew ''seek failed'')"
    by (simp add: driver_eval)
  show ?thesis using h C3_Close_reports_first_error [OF h] by (simp add: s)
qed

text \<open>
  The claim as the spec words it, that when both steps fail the returned error reports all
  encountered errors, fails on that device: both calls are made, both fail, and the
  returned error wraps the Seek failure only.
\<close>

theorem C3_both_fail_counterexample:
  "fst (Close (newDriver ''pwm1'' failingFile))
     = Some (Errorf ''failed to set fan speed to max while closing driver''
               (ErrorsNew ''seek failed''))
   \<and> calls (devFile (snd (Close (newDriver ''pwm1'' failingFile)))) = [CallSeek 0 0, CallClose]
   \<and> fst (ffClose (devFile (snd (setSpeedMax (newDriver ''pwm1'' failingFile)))))
       = Some (ErrorsNew ''close failed'')
   \<and> ErrorsNew ''close failed''
       \<notin> set (reported (Errorf ''failed to set fan speed to max while closing driver''
                          (ErrorsNew ''seek failed'')))"
  by (simp add: driver_eval)

subsection \<open>After the close\<close>

text \<open>
  Claim C8.  Once \<^verbatim>\<open>Close\<close> has closed an open driver, every later
  \<^verbatim>\<open>SetDutyCycle\<close> and \<^verbatim>\<open>Close\<close> returns \<^verbatim>\<open>ErrFanDriverClosed\<close> and leaves the driver,
  its device included, exactly as it was; no background task is left to write; so over
  every run of later events the device sees no further call.
\<close>

theorem C8_closed_driver_issues_no_io:
  assumes "\<not> isClosed dr0" and "dr = snd (Close dr0)"
  shows "isClosed dr
       \<and> SetDutyCycle r dr = (Some ErrFanDriverClosed, dr)
       \<and> Close dr = (Some ErrFanDriverClosed, dr)
       \<and> bgCycle dr = dr
       \<and> drvRun evs dr = (map closedReply evs, dr)"
proof -
  have c: "isClosed dr" and t: "task dr = NoTask"
    using Close_closes [OF assms(1)] assms(2) by simp_all
  show ?thesis
    using c closed_SetDutyCycle [OF c] closed_Close [OF c] closed_run [OF c t] t
    by (simp add: bgCycle_def)
qed

text \<open>
  The theorem on the default driver: \<^verbatim>\<open>Close\<close> issues Seek, Truncate, Write "255" and
  the handle's close, and a later run of four events changes nothing.
\<close>

theorem C8_closed_driver_issues_no_io_witness:
  "\<not> isClosed (newDriver ''pwm1'' okFile)
   \<and> drvRun [EvBgCycle, EvSetDutyCycle (1 / 2), EvClose, EvBgCycle]
        (snd (Close (newDriver ''pwm1'' okFile)))
       = ([None, Some ErrFanDriverClosed, Some ErrFanDriverClosed, None],
          snd (Close (newDriver ''pwm1'' okFile)))
   \<and> calls (devFile (snd (Close (newDriver ''pwm1'' okFile))))
       = [CallSeek 0 0, CallTruncate 0, CallWrite ''255'', CallClose]"
proof -
  have h: "\<not> isClosed (newDriver ''pwm1'' okFile)" by (simp add: isClosed_def newDriver_def)
  have k: "calls (devFile (snd (Close (newDriver ''pwm1'' okFile))))
       = [CallSeek 0 0, CallTruncate 0, CallWrite ''255'', CallClose]"
    by (simp add: driver_eval)
  show ?thesis
    using h k C8_closed_driver_issues_no_io [OF h refl,
        of "1 / 2" "[EvBgCycle, EvSetDutyCycle (1 / 2), EvClose, EvBgCycle]"]
    by (simp add: closedReply_def)
qed

section \<open>Results on the thermal controller\<close>

text \<open>Unfolding what the controller and the fakes do, to run them on a scenario.\<close>

lemmas controller_eval =
  testHeatsink_def freshFan_def freshSensor_def freshObjects_def readingObjects_def
  failingObjects_def closeErrObjects_def coldObjects_def dupConfig_def New_def validate_def
  StartThermalControl_def StopThermalControl_def maxCoreTemp_def sensorTemperature_def
  sensorClose_def fanClose_def fanSetDutyCycle_def closeFailures_def Let_def

subsection \<open>Construction\<close>

text \<open>
  Claim C9, as the code has it.  For a non-nil configuration, \<^verbatim>\<open>New\<close> fails exactly
  when the fan is missing, the sensor list is empty, some sensor is nil, or the bounds
  violate \<open>MinTemperature < MaxTemperature\<close>; it returns a controller exactly in the
  other case, never both an error and a controller; and a nil configuration fails too.
  A sensor that is listed twice is not a reason to fail.
\<close>

theorem C9_New_fails_iff:
  "(\<exists>e. New (Some c) options h = Inl e)
     = (Fan c = None \<or> Sensors c = [] \<or> None \<in> set (Sensors c)
        \<or> MaxTemperature c \<le> MinTemperature c)
   \<and> (\<exists>hs. New (Some c) options h = Inr hs)
     = (Fan c \<noteq> None \<and> Sensors c \<noteq> [] \<and> None \<notin> set (Sensors c)
        \<and> MinTemperature c < MaxTemperature c)
   \<and> New None options h = Inl errNoConfig"
  by (auto simp: New_def validate_def split: option.splits)

text \<open>
  The claim as the spec words it, that construction fails when a sensor is duplicated,
  fails on a configuration that lists the sensor at address 11 twice: \<^verbatim>\<open>New\<close> returns a
  controller over the two entries.
\<close>

theorem C9_duplicate_counterexample:
  "\<not> distinct (Sensors dupConfig) \<and> New (Some dupConfig) [] freshObjects = Inr (testHeatsink [11, 11] (PowPi (newDutyCyclerPowPi 10 20)))"
  by (simp add: controller_eval)

subsection \<open>Stopping\<close>

lemma sensorClose_count: "ts_numCloseCalls (snd (sensorClose s)) = ts_numCloseCalls s + 1"
  by (simp add: sensorClose_def Let_def split: list.splits)

lemma fanClose_count: "fan_numCloseCalls (snd (fanClose f)) = fan_numCloseCalls f + 1"
  by (simp add: fanClose_def Let_def split: list.splits)

lemma closeSensors_fans: "fans (snd (closeSensors as (errs, h))) = fans h"
proof (induction as arbitrary: errs h)
  case Nil
  show ?case by simp
next
  case (Cons a as)
  obtain r s1 where c: "sensorClose (therms h a) = (r, s1)" by (cases "sensorClose (therms h a)")
  show ?case using c Cons.IH by simp
qed

lemma closeSensors_count:
  "ts_numCloseCalls (therms (snd (closeSensors as (errs, h))) b)
     = ts_numCloseCalls (therms h b) + count_list as b"
proof (induction as arbitrary: errs h)
  case Nil
  show ?case by simp
next
  case (Cons a as)
  obtain r s1 where c: "sensorClose (therms h a) = (r, s1)" by (cases "sensorClose (therms h a)")
  have n: "ts_numCloseCalls s1 = ts_numCloseCalls (therms h a) + 1"
    using sensorClose_count [of "therms h a"] c by simp
  show ?case using c n Cons.IH by simp
qed

lemma closeSensors_errs:
  "fst (closeSensors as (errs, h))
     = errs @ map (Errorf ''error closing sensor'') (failures (sensorCloses as h))"
proof (induction as arbitrary: errs h)
  case Nil
  show ?case by simp
next
  case (Cons a as)
  obtain r s1 where c: "sensorClose (therms h a) = (r, s1)" by (cases "sensorClose (therms h a)")
  show ?case using c Cons.IH by (cases r) simp_all
qed

lemma closeSensors_heap:
  "snd (closeSensors as (errs, h)) = snd (closeSensors as ([], h))"
proof (induction as arbitrary: errs h)
  case Nil
  show ?case by simp
next
  case (Cons a as)
  obtain r s1 where c: "sensorClose (therms h a) = (r, s1)" by (cases "sensorClose (therms h a)")
  let ?h1 = "h\<lparr>therms := (therms h)(a := s1)\<rparr>"
  have "snd (closeSensors (a # as) (errs, h)) = snd (closeSensors as ([], ?h1))"
    using c Cons.IH [of _ ?h1] by simp
  moreover have "snd (closeSensors (a # as) ([], h)) = snd (closeSensors as ([], ?h1))"
    using c Cons.IH [of _ ?h1] by simp
  ultimately show ?case by simp
qed

lemma Stop_stopped: "isStopped hs \<Longrightarrow> StopThermalControl hs h = (Some ErrControllerStopped, hs, h)"
  by (simp add: StopThermalControl_def)

lemma Stop_open:
  assumes "\<not> isStopped hs"
  shows "StopThermalControl hs h =
     (if closeFailures hs h = [] then None else Some (multiErrs (closeFailures hs h)),
      hs\<lparr>isStopped := True\<rparr>,
      snd (closeSensors (sensors hs)
            ([], h\<lparr>fans := (fans h)(fan hs := snd (fanClose (fans h (fan hs))))\<rparr>)))"
proof -
  obtain ferr fan1 where f: "fanClose (fans h (fan hs)) = (ferr, fan1)"
    by (cases "fanClose (fans h (fan hs))")
  let ?h1 = "h\<lparr>fans := (fans h)(fan hs := fan1)\<rparr>"
  let ?errs0 = "(case ferr of Some e \<Rightarrow> [Errorf ''error closing fan'' e] | None \<Rightarrow> [])"
  obtain errs h2 where c: "closeSensors (sensors hs) (?errs0, ?h1) = (errs, h2)"
    by (cases "closeSensors (sensors hs) (?errs0, ?h1)")
  have e0: "?errs0 = map (Errorf ''error closing fan'') (failures [ferr])"
    by (cases ferr) simp_all
  have errs: "errs = closeFailures hs h"
    using closeSensors_errs [of "sensors hs" ?errs0 ?h1] c f
    by (simp add: closeFailures_def e0)
  have h2: "h2 = snd (closeSensors (sensors hs) ([], ?h1))"
    using closeSensors_heap [of "sensors hs" ?errs0 ?h1] c by simp
  show ?thesis
    using assms f c errs h2 by (simp add: StopThermalControl_def)
qed

lemma Stop_first_call:
  assumes "\<not> isStopped hs" and "StopThermalControl hs h = (err, hs1, h1)"
  shows "hs1 = hs\<lparr>isStopped := True\<rparr>
       \<and> err = (if closeFailures hs h = [] then None else Some (multiErrs (closeFailures hs h)))
       \<and> fan_numCloseCalls (fans h1 (fan hs)) = fan_numCloseCalls (fans h (fan hs)) + 1
       \<and> (\<forall>a. ts_numCloseCalls (therms h1 a)
                 = ts_numCloseCalls (therms h a) + count_list (sensors hs) a)"
proof -
  let ?h0 = "h\<lparr>fans := (fans h)(fan hs := snd (fanClose (fans h (fan hs))))\<rparr>"
  have hs1: "hs1 = hs\<lparr>isStopped := True\<rparr>"
    and h1: "h1 = snd (closeSensors (sensors hs) ([], ?h0))"
    and err: "err = (if closeFailures hs h = [] then None
                     else Some (multiErrs (closeFailures hs h)))"
    using assms(2) by (simp_all add: Stop_open [OF assms(1)])
  have fc: "fan_numCloseCalls (fans h1 (fan hs)) = fan_numCloseCalls (fans h (fan hs)) + 1"
    by (simp add: h1 closeSensors_fans fanClose_count)
  have sc: "\<forall>a. ts_numCloseCalls (therms h1 a)
                 = ts_numCloseCalls (therms h a) + count_list (sensors hs) a"
    by (simp add: h1 closeSensors_count)
  show ?thesis using hs1 err fc sc by (intro conjI)
qed

text \<open>
  Claim C7, as the code has it.  The first call of \<^verbatim>\<open>StopThermalControl\<close> (the controller
  is not stopped) sets the stop signal, closes the fan once and then closes the sensors in
  the order of the list, once for each entry of the list, and returns every failure in
  one aggregated error, the fan's first (nil when nothing failed).  Every later call
  returns \<^verbatim>\<open>ErrControllerStopped\<close> and changes nothing, however often it is repeated.  So
  a sensor that the list holds once is closed exactly once, and a sensor that the list
  holds twice is closed twice by the first call.  The mutex makes concurrent calls take
  place one after the other, which is the sequence of calls of the statement.
\<close>

theorem C7_Stop_idempotent:
  assumes "\<not> isStopped hs" and "StopThermalControl hs h = (err, hs1, h1)"
  shows "isStopped hs1
       \<and> err = (if closeFailures hs h = [] then None else Some (multiErrs (closeFailures hs h)))
       \<and> fan_numCloseCalls (fans h1 (fan hs)) = fan_numCloseCalls (fans h (fan hs)) + 1
       \<and> (\<forall>a. ts_numCloseCalls (therms h1 a)
                 = ts_numCloseCalls (therms h a) + count_list (sensors hs) a)
       \<and> StopThermalControl hs1 h1 = (Some ErrControllerStopped, hs1, h1)
       \<and> ((\<lambda>(hs', h'). snd (StopThermalControl hs' h')) ^^ n) (hs1, h1) = (hs1, h1)"
proof -
  have first: "hs1 = hs\<lparr>isStopped := True\<rparr>
       \<and> err = (if closeFailures hs h = [] then None else Some (multiErrs (closeFailures hs h)))
       \<and> fan_numCloseCalls (fans h1 (fan hs)) = fan_numCloseCalls (fans h (fan hs)) + 1
       \<and> (\<forall>a. ts_numCloseCalls (therms h1 a)
                 = ts_numCloseCalls (therms h a) + count_list (sensors hs) a)"
    by (rule Stop_first_call [OF assms])
  have st: "isStopped hs1" using first by simp
  have again: "StopThermalControl hs1 h1 = (Some ErrControllerStopped, hs1, h1)"
    by (rule Stop_stopped [OF st])
  have rep: "((\<lambda>(hs', h'). snd (StopThermalControl hs' h')) ^^ n) (hs1, h1) = (hs1, h1)"
    by (induction n) (simp_all add: again)
  show ?thesis using st first again rep by (intro conjI) simp_all
qed

text \<open>
  The theorem on a fan and three sensors of which the fan, the first and the third sensor
  fail to close: three failures in that order, then the sentinel, and the second sensor
  closed once.
\<close>

theorem C7_Stop_idempotent_witness:
  "\<not> isStopped (testHeatsink [11, 12, 13] (PowPi (newDutyCyclerPowPi 0 10)))
   \<and> fst (StopThermalControl (testHeatsink [11, 12, 13] (PowPi (newDutyCyclerPowPi 0 10)))
            closeErrObjects)
       = Some (multiErrs
           [Errorf ''error closing fan'' (ErrorsNew ''simulated error for closing fan''),
            Errorf ''error closing sensor'' (ErrorsNew ''simulated error for closing sensor 1''),
            Errorf ''error closing sensor'' (ErrorsNew ''simulated error for closing sensor 3'')])
   \<and> StopThermalControl
        (fst (snd (StopThermalControl (testHeatsink [11, 12, 13] (PowPi (newDutyCyclerPowPi 0 10)))
            closeErrObjects)))
        (snd (snd (StopThermalControl (testHeatsink [11, 12, 13] (PowPi (newDutyCyclerPowPi 0 10)))
            closeErrObjects)))
       = (Some ErrControllerStopped,
          fst (snd (StopThermalControl (testHeatsink [11, 12, 13] (PowPi (newDutyCyclerPowPi 0 10)))
            closeErrObjects)),
          snd (snd (StopThermalControl (testHeatsink [11, 12, 13] (PowPi (newDutyCyclerPowPi 0 10)))
            closeErrObjects)))
   \<and> ts_numCloseCalls (therms (snd (snd (StopThermalControl
         (testHeatsink [11, 12, 13] (PowPi (newDutyCyclerPowPi 0 10))) closeErrObjects))) 12) = 1"
proof -
  let ?hs = "testHeatsink [11, 12, 13] (PowPi (newDutyCyclerPowPi 0 10))"
  let ?X = "StopThermalControl ?hs closeErrObjects"
  have a1: "\<not> isStopped ?hs" by (simp add: testHeatsink_def)
  have a2: "?X = (fst ?X, fst (snd ?X), snd (snd ?X))" by simp
  have cf: "closeFailures ?hs closeErrObjects =
           [Errorf ''error closing fan'' (ErrorsNew ''simulated error for closing fan''),
            Errorf ''error closing sensor'' (ErrorsNew ''simulated error for closing sensor 1''),
            Errorf ''error closing sensor'' (ErrorsNew ''simulated error for closing sensor 3'')]"
    by (simp add: controller_eval)
  have ss: "sensors ?hs = [11, 12, 13]" by (simp add: testHeatsink_def)
  have c0: "ts_numCloseCalls (therms closeErrObjects 12) = 0"
    by (simp add: closeErrObjects_def freshSensor_def)
  show ?thesis
    using C7_Stop_idempotent [OF a1 a2, of 2] a1
    by (simp add: cf ss c0)
qed

text \<open>
  The claim as the spec words it, that each resource is closed exactly once, fails on the
  controller that \<^verbatim>\<open>New\<close> builds from the configuration listing sensor 11 twice: the
  first call closes that sensor twice.
\<close>

theorem C7_twice_closed_counterexample:
  "New (Some dupConfig) [] freshObjects = Inr (testHeatsink [11, 11] (PowPi (newDutyCyclerPowPi 10 20)))
   \<and> ts_numCloseCalls (therms (snd (snd (StopThermalControl (testHeatsink [11, 11] (PowPi (newDutyCyclerPowPi 10 20))) freshObjects))) 11) = 2"
  by (simp add: controller_eval)

subsection \<open>One cycle of reads\<close>

lemma sensorTemperature_frame:
  "ts_numCloseCalls (snd (sensorTemperature s)) = ts_numCloseCalls s"
  "ts_onName (snd (sensorTemperature s)) = ts_onName s"
  "ts_onCloseErrs (snd (sensorTemperature s)) = ts_onCloseErrs s"
  by (simp_all add: sensorTemperature_def Let_def split: list.splits prod.splits)

lemma length_sensorReads: "length (sensorReads as h) = length as"
proof (induction as arbitrary: h)
  case Nil
  show ?case by simp
next
  case (Cons a as)
  obtain r s1 where t: "sensorTemperature (therms h a) = (r, s1)"
    by (cases "sensorTemperature (therms h a)")
  show ?case using t Cons.IH by simp
qed

lemma loop_result:
  assumes "\<forall>b. ts_onName (therms h b) = N b"
  shows "fst (maxCoreTemp_loop as (mx, errs, h)) = foldl keepMax mx (sensorReads as h)
       \<and> fst (snd (maxCoreTemp_loop as (mx, errs, h)))
           = errs @ concat (map2 (readError N) as (sensorReads as h))
       \<and> fans (snd (snd (maxCoreTemp_loop as (mx, errs, h)))) = fans h
       \<and> (\<forall>b. ts_numCloseCalls (therms (snd (snd (maxCoreTemp_loop as (mx, errs, h)))) b)
                 = ts_numCloseCalls (therms h b))"
  using assms
proof (induction as arbitrary: mx errs h)
  case Nil
  show ?case by simp
next
  case (Cons a as)
  obtain temp err s1 where t: "sensorTemperature (therms h a) = ((temp, err), s1)"
    by (cases "sensorTemperature (therms h a)") auto
  let ?h1 = "h\<lparr>therms := (therms h)(a := s1)\<rparr>"
  have s1n: "ts_onName s1 = ts_onName (therms h a)" "ts_numCloseCalls s1 = ts_numCloseCalls (therms h a)"
    using sensorTemperature_frame [of "therms h a"] t by simp_all
  have nm: "\<forall>b. ts_onName (therms ?h1 b) = N b" using Cons.prems s1n by simp
  have cnt: "\<forall>b. ts_numCloseCalls (therms ?h1 b) = ts_numCloseCalls (therms h b)" using s1n by simp
  have na: "ts_onName s1 = N a" using Cons.prems s1n by simp
  show ?case
  proof (cases err)
    case None
    have step: "maxCoreTemp_loop (a # as) (mx, errs, h)
                  = maxCoreTemp_loop as ((if temp > mx then temp else mx), errs, ?h1)"
      using t None by simp
    show ?thesis
      unfolding step using Cons.IH [OF nm, of "if temp > mx then temp else mx" errs] t None cnt
      by (simp add: keepMax_def readError_def)
  next
    case (Some e)
    have step: "maxCoreTemp_loop (a # as) (mx, errs, h)
                  = maxCoreTemp_loop as (mx, errs @ [Errorf (sensorErrContext (N a)) e], ?h1)"
      using t Some na by simp
    show ?thesis
      unfolding step
      using Cons.IH [OF nm, of mx "errs @ [Errorf (sensorErrContext (N a)) e]"] t Some cnt
      by (simp add: keepMax_def readError_def)
  qed
qed


lemma all_fail_errors:
  assumes "length as = length rs" and "\<forall>r \<in> set rs. snd r \<noteq> None"
  shows "concat (map2 (readError N) as rs)
           = map2 (\<lambda>a r. Errorf (sensorErrContext (N a)) (the (snd r))) as rs"
  using assms
proof (induction as rs rule: list_induct2)
  case Nil
  show ?case by simp
next
  case (Cons a as r rs)
  obtain e where e: "snd r = Some e" using Cons.prems by auto
  show ?case using Cons e by (simp add: readError_def)
qed

lemma count_read_errors:
  assumes "length as = length rs"
  shows "length (concat (map2 (readError N) as rs)) + length (filter (\<lambda>r. snd r = None) rs)
           = length rs"
  using assms
proof (induction as rs rule: list_induct2)
  case Nil
  show ?case by simp
next
  case (Cons a as r rs)
  show ?case using Cons by (cases "snd r") (simp_all add: readError_def)
qed

lemma foldl_keepMax:
  "foldl keepMax mx rs = Max (insert mx (fst ` {r \<in> set rs. snd r = None}))"
proof (induction rs arbitrary: mx)
  case Nil
  show ?case by simp
next
  case (Cons r rs)
  let ?S = "fst ` {x \<in> set rs. snd x = None}"
  have fin: "finite ?S" by simp
  show ?case
  proof (cases "snd r = None")
    case True
    have set_eq: "fst ` {x \<in> set (r # rs). snd x = None} = insert (fst r) ?S"
      using True by auto
    have "foldl keepMax mx (r # rs) = Max (insert (keepMax mx r) ?S)"
      using Cons.IH by simp
    also have "keepMax mx r = max mx (fst r)" using True by (simp add: keepMax_def max_def)
    also have "Max (insert (max mx (fst r)) ?S) = Max (insert mx (insert (fst r) ?S))"
    proof (cases "?S = {}")
      case True
      show ?thesis unfolding True by simp
    next
      case False
      then show ?thesis using fin by (simp add: max.assoc)
    qed
    finally show ?thesis by (simp only: set_eq)
  next
    case False
    have set_eq: "fst ` {x \<in> set (r # rs). snd x = None} = ?S"
      using False by auto
    have "foldl keepMax mx (r # rs) = Max (insert (keepMax mx r) ?S)"
      using Cons.IH by simp
    also have "keepMax mx r = mx" using False by (simp add: keepMax_def)
    finally show ?thesis by (simp only: set_eq)
  qed
qed

lemma maxCoreTemp_all_fail:
  assumes "\<forall>r \<in> set (sensorReads (sensors hs) h). snd r \<noteq> None"
  shows "fst (maxCoreTemp hs h) =
           (MaxFloat64, Some (multiErrs
              (map2 (\<lambda>a r. Errorf (sensorErrContext (ts_onName (therms h a))) (the (snd r)))
                 (sensors hs) (sensorReads (sensors hs) h))))"
proof -
  let ?N = "\<lambda>a. ts_onName (therms h a)"
  obtain mx errs h1 where l: "maxCoreTemp_loop (sensors hs) (SmallestNonzeroFloat64, [], h) = (mx, errs, h1)"
    by (cases "maxCoreTemp_loop (sensors hs) (SmallestNonzeroFloat64, [], h)")
  have len: "length (sensors hs) = length (sensorReads (sensors hs) h)"
    by (simp add: length_sensorReads)
  have "errs = concat (map2 (readError ?N) (sensors hs) (sensorReads (sensors hs) h))"
    using loop_result [of h ?N "sensors hs" SmallestNonzeroFloat64 "[]"] l by simp
  then have errs: "errs = map2 (\<lambda>a r. Errorf (sensorErrContext (?N a)) (the (snd r)))
                    (sensors hs) (sensorReads (sensors hs) h)"
    using all_fail_errors [OF len assms] by simp
  have "length errs = length (sensors hs)" by (simp add: errs length_sensorReads)
  then show ?thesis using l errs by (simp add: maxCoreTemp_def)
qed

lemma maxCoreTemp_some_success:
  assumes "\<exists>r \<in> set (sensorReads (sensors hs) h). snd r = None"
  shows "fst (maxCoreTemp hs h) =
           (Max (insert SmallestNonzeroFloat64
                   (fst ` {r \<in> set (sensorReads (sensors hs) h). snd r = None})), None)"
proof -
  let ?N = "\<lambda>a. ts_onName (therms h a)"
  let ?rs = "sensorReads (sensors hs) h"
  obtain mx errs h1 where l: "maxCoreTemp_loop (sensors hs) (SmallestNonzeroFloat64, [], h) = (mx, errs, h1)"
    by (cases "maxCoreTemp_loop (sensors hs) (SmallestNonzeroFloat64, [], h)")
  have len: "length (sensors hs) = length ?rs" by (simp add: length_sensorReads)
  have errs: "errs = concat (map2 (readError ?N) (sensors hs) ?rs)"
    and mx: "mx = foldl keepMax SmallestNonzeroFloat64 ?rs"
    using loop_result [of h ?N "sensors hs" SmallestNonzeroFloat64 "[]"] l by simp_all
  have "filter (\<lambda>r. snd r = None) ?rs \<noteq> []" using assms by (simp add: filter_empty_conv)
  then have pos: "0 < length (filter (\<lambda>r. snd r = None) ?rs)" by simp
  have total: "length errs + length (filter (\<lambda>r. snd r = None) ?rs) = length ?rs"
    using count_read_errors [OF len, of ?N] by (simp only: errs)
  have "length errs < length ?rs"
    using pos total by linarith
  then have "length errs \<noteq> length (sensors hs)" using len by simp
  then show ?thesis using l mx by (simp add: maxCoreTemp_def foldl_keepMax)
qed

lemma maxCoreTemp_frame:
  "fans (snd (maxCoreTemp hs h)) = fans h
   \<and> (\<forall>b. ts_numCloseCalls (therms (snd (maxCoreTemp hs h)) b) = ts_numCloseCalls (therms h b))"
proof -
  let ?N = "\<lambda>a. ts_onName (therms h a)"
  obtain mx errs h1 where l: "maxCoreTemp_loop (sensors hs) (SmallestNonzeroFloat64, [], h) = (mx, errs, h1)"
    by (cases "maxCoreTemp_loop (sensors hs) (SmallestNonzeroFloat64, [], h)")
  have "fans h1 = fans h \<and> (\<forall>b. ts_numCloseCalls (therms h1 b) = ts_numCloseCalls (therms h b))"
    using loop_result [of h ?N "sensors hs" SmallestNonzeroFloat64 "[]"] l by simp
  then show ?thesis using l by (simp add: maxCoreTemp_def)
qed

lemma SmallestNonzeroFloat64_pos: "0 < SmallestNonzeroFloat64"
  by (simp add: SmallestNonzeroFloat64_def)

lemma cold_cmp: "\<not> (- 5 > SmallestNonzeroFloat64)" "SmallestNonzeroFloat64 \<noteq> - 5"
  using SmallestNonzeroFloat64_pos by simp_all

lemma warm_cmp: "36 > SmallestNonzeroFloat64" "40 > SmallestNonzeroFloat64"
  by (simp_all add: SmallestNonzeroFloat64_def)

lemma reading_cycle:
  "fst (thermalLoop [False] (testHeatsink [11, 12] (FakeDutyCycler [(40, 2 / 5), (36, 9 / 25)])) readingObjects) = StillRunning
  \<and> argSetDutyCycle (fans (snd (snd
        (thermalLoop [False] (testHeatsink [11, 12] (FakeDutyCycler [(40, 2 / 5), (36, 9 / 25)])) readingObjects))) 0)
       = [2 / 5]"
  by (simp add: controller_eval warm_cmp)

text \<open>
  Claim C1.  The claim asks that, whenever a read of the cycle succeeds, the temperature
  given to the duty-cycle function is the maximum of the successful readings, negative
  readings included.  \<^verbatim>\<open>maxCoreTemp\<close> starts its running maximum at
  \<^verbatim>\<open>math.SmallestNonzeroFloat64\<close>, the least positive float, so what it returns is the
  maximum of that constant and the successful readings (\<open>maxCoreTemp_some_success\<close>),
  and a cycle whose readings are all zero or negative yields the constant.  With one
  sensor reading -5 the code returns the constant instead of -5, and a duty-cycle
  function that maps -5 to 1/4 makes the fan receive 0.
\<close>

theorem C1_negative_reading_lost:
  "fst (maxCoreTemp (testHeatsink [11] (FakeDutyCycler [(- 5, 1 / 4)])) coldObjects)
     = (SmallestNonzeroFloat64, None)
   \<and> sensorReads [11] coldObjects = [(- 5, None)]
   \<and> 0 < SmallestNonzeroFloat64
   \<and> argSetDutyCycle (fans (snd (snd
        (thermalLoop [False] (testHeatsink [11] (FakeDutyCycler [(- 5, 1 / 4)])) coldObjects))) 0)
       = [0]
   \<and> ratio (FakeDutyCycler [(- 5, 1 / 4)]) (- 5) = 1 / 4"
  by (simp add: controller_eval cold_cmp SmallestNonzeroFloat64_pos)

subsection \<open>The control loop\<close>

lemma Stop_sets_stopped: "isStopped (fst (snd (StopThermalControl hs h)))"
proof (cases "isStopped hs")
  case True
  then show ?thesis by (simp add: Stop_stopped)
next
  case False
  then show ?thesis by (simp add: Stop_open)
qed

lemma Stop_fields:
  "sensors (fst (snd (StopThermalControl hs h))) = sensors hs
   \<and> fan (fst (snd (StopThermalControl hs h))) = fan hs
   \<and> dcCalc (fst (snd (StopThermalControl hs h))) = dcCalc hs"
proof (cases "isStopped hs")
  case True
  then show ?thesis by (simp add: Stop_stopped)
next
  case False
  then show ?thesis by (simp add: Stop_open)
qed

lemma loop_stop:
  assumes "b \<or> isStopped hs"
  shows "fst (thermalLoop (b # sched) hs h) = Returned (Some ErrControllerStopped)"
proof -
  obtain hs1 h1 where s: "(if b then snd (StopThermalControl hs h) else (hs, h)) = (hs1, h1)"
    by (cases "if b then snd (StopThermalControl hs h) else (hs, h)")
  have "isStopped hs1"
  proof (cases b)
    case True
    then have "hs1 = fst (snd (StopThermalControl hs h))" using s by (simp add: prod_eq_iff)
    then show ?thesis by (simp add: Stop_sets_stopped)
  next
    case False
    then show ?thesis using s assms by simp
  qed
  then show ?thesis using s by simp
qed

lemma loop_cycle:
  assumes "\<not> isStopped hs"
  shows "thermalLoop (False # sched) hs h =
     (case maxCoreTemp hs h of
        ((temp, Some err), h2) \<Rightarrow>
          (Returned (Some (Errorf ''determining max core temperature'' err)), hs, h2)
      | ((temp, None), h2) \<Rightarrow>
          (case fanSetDutyCycle (ratio (dcCalc hs) temp) (fans h2 (fan hs)) of
             (Some err, fan1) \<Rightarrow>
               (Returned (Some (Errorf ''setting fan's duty cycle'' err)), hs,
                h2\<lparr>fans := (fans h2)(fan hs := fan1)\<rparr>)
           | (None, fan1) \<Rightarrow> thermalLoop sched hs (h2\<lparr>fans := (fans h2)(fan hs := fan1)\<rparr>)))"
  using assms by simp

lemma thermalLoop_never_nil: "fst (thermalLoop sched hs h) \<noteq> Returned None"
proof (induction sched arbitrary: hs h)
  case Nil
  show ?case by simp
next
  case (Cons b sched)
  show ?case
  proof (cases "b \<or> isStopped hs")
    case True
    then show ?thesis by (simp only: loop_stop) simp
  next
    case False
    then have b: "b = False" and op: "\<not> isStopped hs" by simp_all
    obtain temp err h2 where m: "maxCoreTemp hs h = ((temp, err), h2)"
      by (cases "maxCoreTemp hs h") auto
    obtain ferr fan1 where f: "fanSetDutyCycle (ratio (dcCalc hs) temp) (fans h2 (fan hs)) = (ferr, fan1)"
      by (cases "fanSetDutyCycle (ratio (dcCalc hs) temp) (fans h2 (fan hs))")
    show ?thesis
      unfolding b loop_cycle [OF op] using m f Cons.IH
      by (cases err; cases ferr) simp_all
  qed
qed

lemma thermalLoop_progress:
  "True \<in> set sched \<Longrightarrow> fst (thermalLoop sched hs h) \<noteq> StillRunning"
proof (induction sched arbitrary: hs h)
  case Nil
  then show ?case by simp
next
  case (Cons b sched)
  show ?case
  proof (cases "b \<or> isStopped hs")
    case True
    then show ?thesis by (simp only: loop_stop) simp
  next
    case False
    then have b: "b = False" and op: "\<not> isStopped hs" by simp_all
    have rest: "True \<in> set sched" using Cons.prems b by simp
    obtain temp err h2 where m: "maxCoreTemp hs h = ((temp, err), h2)"
      by (cases "maxCoreTemp hs h") auto
    obtain ferr fan1 where f: "fanSetDutyCycle (ratio (dcCalc hs) temp) (fans h2 (fan hs)) = (ferr, fan1)"
      by (cases "fanSetDutyCycle (ratio (dcCalc hs) temp) (fans h2 (fan hs))")
    show ?thesis
      unfolding b loop_cycle [OF op] using m f Cons.IH [OF rest]
      by (cases err; cases ferr) simp_all
  qed
qed

lemma thermalLoop_append:
  "thermalLoop pre hs h = (StillRunning, hs1, h1)
     \<Longrightarrow> thermalLoop (pre @ rest) hs h = thermalLoop rest hs1 h1"
proof (induction pre arbitrary: hs h)
  case Nil
  then show ?case by simp
next
  case (Cons b pre)
  show ?case
  proof (cases "b \<or> isStopped hs")
    case True
    have "fst (thermalLoop (b # pre) hs h) = Returned (Some ErrControllerStopped)"
      by (rule loop_stop [OF True])
    then show ?thesis using Cons.prems by simp
  next
    case False
    then have b: "b = False" and op: "\<not> isStopped hs" by simp_all
    obtain temp err h2 where m: "maxCoreTemp hs h = ((temp, err), h2)"
      by (cases "maxCoreTemp hs h") auto
    obtain ferr fan1 where f: "fanSetDutyCycle (ratio (dcCalc hs) temp) (fans h2 (fan hs)) = (ferr, fan1)"
      by (cases "fanSetDutyCycle (ratio (dcCalc hs) temp) (fans h2 (fan hs))")
    have p: "thermalLoop (False # pre) hs h = (StillRunning, hs1, h1)" using Cons.prems b by simp
    show ?thesis
    proof (cases err)
      case (Some e)
      have "fst (thermalLoop (False # pre) hs h)
              = Returned (Some (Errorf ''determining max core temperature'' e))"
        unfolding loop_cycle [OF op] using m Some by simp
      then show ?thesis using p by simp
    next
      case None
      note en = None
      show ?thesis
      proof (cases ferr)
        case (Some e)
        have "fst (thermalLoop (False # pre) hs h)
                = Returned (Some (Errorf ''setting fan's duty cycle'' e))"
          unfolding loop_cycle [OF op] using m f en Some by simp
        then show ?thesis using p by simp
      next
        case None
        let ?h3 = "h2\<lparr>fans := (fans h2)(fan hs := fan1)\<rparr>"
        have u: "thermalLoop (False # pre) hs h = thermalLoop pre hs ?h3"
          unfolding loop_cycle [OF op] using m f en None by simp
        have q: "thermalLoop pre hs ?h3 = (StillRunning, hs1, h1)"
          using p u by simp
        have "thermalLoop (False # (pre @ rest)) hs h = thermalLoop (pre @ rest) hs ?h3"
          unfolding loop_cycle [OF op] using m f en None by simp
        then show ?thesis using Cons.IH [OF q] b by simp
      qed
    qed
  qed
qed

lemma thermalLoop_running_fields:
  "thermalLoop pre hs h = (StillRunning, hs1, h1) \<Longrightarrow> hs1 = hs"
proof (induction pre arbitrary: hs h)
  case Nil
  then show ?case by simp
next
  case (Cons b pre)
  show ?case
  proof (cases "b \<or> isStopped hs")
    case True
    have "fst (thermalLoop (b # pre) hs h) = Returned (Some ErrControllerStopped)"
      by (rule loop_stop [OF True])
    then show ?thesis using Cons.prems by simp
  next
    case False
    then have b: "b = False" and op: "\<not> isStopped hs" by simp_all
    obtain temp err h2 where m: "maxCoreTemp hs h = ((temp, err), h2)"
      by (cases "maxCoreTemp hs h") auto
    obtain ferr fan1 where f: "fanSetDutyCycle (ratio (dcCalc hs) temp) (fans h2 (fan hs)) = (ferr, fan1)"
      by (cases "fanSetDutyCycle (ratio (dcCalc hs) temp) (fans h2 (fan hs))")
    have p: "thermalLoop (False # pre) hs h = (StillRunning, hs1, h1)" using Cons.prems b by simp
    show ?thesis
    proof (cases err)
      case (Some e)
      have "fst (thermalLoop (False # pre) hs h)
              = Returned (Some (Errorf ''determining max core temperature'' e))"
        unfolding loop_cycle [OF op] using m Some by simp
      then show ?thesis using p by simp
    next
      case None
      note en = None
      show ?thesis
      proof (cases ferr)
        case (Some e)
        have "fst (thermalLoop (False # pre) hs h)
                = Returned (Some (Errorf ''setting fan's duty cycle'' e))"
          unfolding loop_cycle [OF op] using m f en Some by simp
        then show ?thesis using p by simp
      next
        case None
        let ?h3 = "h2\<lparr>fans := (fans h2)(fan hs := fan1)\<rparr>"
        have u: "thermalLoop (False # pre) hs h = thermalLoop pre hs ?h3"
          unfolding loop_cycle [OF op] using m f en None by simp
        show ?thesis using Cons.IH [of hs ?h3] p u by simp
      qed
    qed
  qed
qed

lemma Start_outcome: "fst (StartThermalControl sched hs h) = fst (thermalLoop sched hs h)"
proof -
  obtain r hs1 h1 where l: "thermalLoop sched hs h = (r, hs1, h1)"
    by (cases "thermalLoop sched hs h")
  obtain cerr hs2 h2 where s: "StopThermalControl hs1 h1 = (cerr, hs2, h2)"
    by (cases "StopThermalControl hs1 h1")
  show ?thesis using l s by (cases r) (simp_all add: StartThermalControl_def)
qed

lemma Start_running:
  assumes "StartThermalControl pre hs h = (StillRunning, hs1, h1)"
  shows "thermalLoop pre hs h = (StillRunning, hs1, h1)"
proof -
  obtain r hsa ha where l: "thermalLoop pre hs h = (r, hsa, ha)"
    by (cases "thermalLoop pre hs h")
  obtain cerr hsb hb where s: "StopThermalControl hsa ha = (cerr, hsb, hb)"
    by (cases "StopThermalControl hsa ha")
  show ?thesis using assms l s by (cases r) (simp_all add: StartThermalControl_def)
qed

text \<open>
  Claim C10.  \<^verbatim>\<open>StartThermalControl\<close> never returns nil; once a stop has been requested
  it does return; and when an iteration finds the stop signal set (the controller was
  stopped already, or \<^verbatim>\<open>StopThermalControl\<close> has been called from outside since the
  previous iteration) it returns \<^verbatim>\<open>ErrControllerStopped\<close>.
\<close>

theorem C10_Start_returns_non_nil:
  "fst (StartThermalControl sched hs h) \<noteq> Returned None
   \<and> (True \<in> set sched \<longrightarrow> fst (StartThermalControl sched hs h) \<noteq> StillRunning)
   \<and> (StartThermalControl pre hs h = (StillRunning, hs1, h1) \<and> (b \<or> isStopped hs1)
        \<longrightarrow> fst (StartThermalControl (pre @ b # rest) hs h)
              = Returned (Some ErrControllerStopped))"
proof (intro conjI impI)
  show "fst (StartThermalControl sched hs h) \<noteq> Returned None"
    by (simp only: Start_outcome thermalLoop_never_nil) simp
  show "fst (StartThermalControl sched hs h) \<noteq> StillRunning" if "True \<in> set sched"
    using thermalLoop_progress [OF that] by (simp only: Start_outcome) simp
  show "fst (StartThermalControl (pre @ b # rest) hs h) = Returned (Some ErrControllerStopped)"
    if a: "StartThermalControl pre hs h = (StillRunning, hs1, h1) \<and> (b \<or> isStopped hs1)"
  proof -
    have l: "thermalLoop pre hs h = (StillRunning, hs1, h1)" using a Start_running by blast
    have s: "b \<or> isStopped hs1" using a by blast
    have "thermalLoop (pre @ b # rest) hs h = thermalLoop (b # rest) hs1 h1"
      by (rule thermalLoop_append [OF l])
    then show ?thesis by (simp only: Start_outcome loop_stop [OF s])
  qed
qed

text \<open>
  The theorem on two sensors reading 36 and 40: the call is still running after one
  iteration, and returns the sentinel when a stop is requested before the second.
\<close>

theorem C10_Start_returns_non_nil_witness:
  "True \<in> set [False, True]
   \<and> StartThermalControl [False]
        (testHeatsink [11, 12] (FakeDutyCycler [(40, 2 / 5), (36, 9 / 25)])) readingObjects
       = (StillRunning,
          fst (snd (StartThermalControl [False]
             (testHeatsink [11, 12] (FakeDutyCycler [(40, 2 / 5), (36, 9 / 25)])) readingObjects)),
          snd (snd (StartThermalControl [False]
             (testHeatsink [11, 12] (FakeDutyCycler [(40, 2 / 5), (36, 9 / 25)])) readingObjects)))
   \<and> fst (StartThermalControl ([False] @ True # [])
        (testHeatsink [11, 12] (FakeDutyCycler [(40, 2 / 5), (36, 9 / 25)])) readingObjects)
       = Returned (Some ErrControllerStopped)"
proof -
  let ?hs = "testHeatsink [11, 12] (FakeDutyCycler [(40, 2 / 5), (36, 9 / 25)])"
  let ?X = "StartThermalControl [False] ?hs readingObjects"
  have r: "fst ?X = StillRunning"
    using reading_cycle by (simp only: Start_outcome)
  have p: "?X = (StillRunning, fst (snd ?X), snd (snd ?X))"
    using r by (simp add: prod_eq_iff)
  have m: "True \<in> set [False, True]" by simp
  show ?thesis
    using p m
      C10_Start_returns_non_nil [of "[False, True]" ?hs readingObjects "[False]"
        "fst (snd ?X)" "snd (snd ?X)" True "[]"]
    by blast
qed

text \<open>
  Claim C6.  If the loop is still running after some iterations and every sensor read of
  the next cycle fails, \<^verbatim>\<open>StartThermalControl\<close> returns the aggregated error wrapped as
  "determining max core temperature": one entry for each entry of the sensor list, in the
  order of the list, each wrapping what that read returned under the sensor's name.  The
  controller is stopped afterwards and the teardown has run: the fan has been closed once
  more and every sensor once more for each of its entries in the list.
\<close>

theorem C6_all_sensors_fail:
  assumes "StartThermalControl pre hs h = (StillRunning, hs1, h1)"
    and "\<not> isStopped hs1"
    and "\<forall>r \<in> set (sensorReads (sensors hs1) h1). snd r \<noteq> None"
    and "StartThermalControl (pre @ False # rest) hs h = (res, hs2, h2)"
  shows "res = Returned (Some (Errorf ''determining max core temperature''
                 (multiErrs
                    (map2 (\<lambda>a r. Errorf (sensorErrContext (ts_onName (therms h1 a))) (the (snd r)))
                       (sensors hs) (sensorReads (sensors hs) h1)))))
       \<and> length (map2 (\<lambda>a r. Errorf (sensorErrContext (ts_onName (therms h1 a))) (the (snd r)))
                   (sensors hs) (sensorReads (sensors hs) h1)) = length (sensors hs)
       \<and> isStopped hs2
       \<and> fan_numCloseCalls (fans h2 (fan hs)) = fan_numCloseCalls (fans h1 (fan hs)) + 1
       \<and> (\<forall>a. ts_numCloseCalls (therms h2 a)
                 = ts_numCloseCalls (therms h1 a) + count_list (sensors hs) a)"
proof -
  let ?es = "map2 (\<lambda>a r. Errorf (sensorErrContext (ts_onName (therms h1 a))) (the (snd r)))
               (sensors hs) (sensorReads (sensors hs) h1)"
  have l: "thermalLoop pre hs h = (StillRunning, hs1, h1)" by (rule Start_running [OF assms(1)])
  have same: "hs1 = hs" by (rule thermalLoop_running_fields [OF l])
  have op: "\<not> isStopped hs" using assms(2) same by simp
  have fail: "\<forall>r \<in> set (sensorReads (sensors hs) h1). snd r \<noteq> None" using assms(3) same by simp
  obtain temp err hm where m: "maxCoreTemp hs h1 = ((temp, err), hm)"
    by (cases "maxCoreTemp hs h1") auto
  have err: "err = Some (multiErrs ?es)"
    using maxCoreTemp_all_fail [OF fail] m by simp
  have fr: "fans hm = fans h1"
    "\<forall>b. ts_numCloseCalls (therms hm b) = ts_numCloseCalls (therms h1 b)"
    using maxCoreTemp_frame [of hs h1] m by simp_all
  have "thermalLoop (pre @ False # rest) hs h = thermalLoop (False # rest) hs h1"
    using thermalLoop_append [OF l] same by simp
  also have "\<dots> = (Returned (Some (Errorf ''determining max core temperature'' (multiErrs ?es))), hs, hm)"
    unfolding loop_cycle [OF op] using m err by simp
  finally have lp: "thermalLoop (pre @ False # rest) hs h
     = (Returned (Some (Errorf ''determining max core temperature'' (multiErrs ?es))), hs, hm)" .
  obtain cerr hsb hb where s: "StopThermalControl hs hm = (cerr, hsb, hb)"
    by (cases "StopThermalControl hs hm")
  have st: "StartThermalControl (pre @ False # rest) hs h
     = (Returned (Some (Errorf ''determining max core temperature'' (multiErrs ?es))), hsb, hb)"
    using lp s by (simp add: StartThermalControl_def)
  have res: "res = Returned (Some (Errorf ''determining max core temperature'' (multiErrs ?es)))"
    and hs2: "hs2 = hsb" and h2: "h2 = hb"
    using assms(4) st by simp_all
  have eff: "hsb = hs\<lparr>isStopped := True\<rparr>
       \<and> fan_numCloseCalls (fans hb (fan hs)) = fan_numCloseCalls (fans hm (fan hs)) + 1
       \<and> (\<forall>a. ts_numCloseCalls (therms hb a)
                 = ts_numCloseCalls (therms hm a) + count_list (sensors hs) a)"
    using Stop_first_call [OF op s] by simp
  have len: "length ?es = length (sensors hs)" by (simp add: length_sensorReads)
  have stopped: "isStopped hs2" using eff hs2 by simp
  have fc: "fan_numCloseCalls (fans h2 (fan hs)) = fan_numCloseCalls (fans h1 (fan hs)) + 1"
    using eff fr(1) h2 by simp
  have sc: "\<forall>a. ts_numCloseCalls (therms h2 a)
                 = ts_numCloseCalls (therms h1 a) + count_list (sensors hs) a"
    using eff fr(2) h2 by simp
  show ?thesis using res len stopped fc sc by (intro conjI)
qed

text \<open>
  The theorem on two sensors whose first reads fail: both failures in the order of the
  sensors, and the controller stopped.
\<close>

theorem C6_all_sensors_fail_witness:
  "\<not> isStopped (testHeatsink [11, 12] (PowPi (newDutyCyclerPowPi 1 2)))
   \<and> sensorReads [11, 12] failingObjects
       = [(0, Some (ErrorsNew ''simulated error reading from sensor 1'')),
          (0, Some (ErrorsNew ''simulated error reading from sensor 2''))]
   \<and> fst (StartThermalControl [False] (testHeatsink [11, 12] (PowPi (newDutyCyclerPowPi 1 2)))
            failingObjects)
       = Returned (Some (Errorf ''determining max core temperature''
           (multiErrs
              [Errorf (sensorErrContext ''core'') (ErrorsNew ''simulated error reading from sensor 1''),
               Errorf (sensorErrContext ''core'') (ErrorsNew ''simulated error reading from sensor 2'')])))
   \<and> isStopped (fst (snd (StartThermalControl [False]
         (testHeatsink [11, 12] (PowPi (newDutyCyclerPowPi 1 2))) failingObjects)))"
proof -
  let ?hs = "testHeatsink [11, 12] (PowPi (newDutyCyclerPowPi 1 2))"
  let ?X = "StartThermalControl [False] ?hs failingObjects"
  have a1: "StartThermalControl [] ?hs failingObjects = (StillRunning, ?hs, failingObjects)"
    by (simp add: StartThermalControl_def)
  have a2: "\<not> isStopped ?hs" by (simp add: testHeatsink_def)
  have rd: "sensorReads [11, 12] failingObjects
       = [(0, Some (ErrorsNew ''simulated error reading from sensor 1'')),
          (0, Some (ErrorsNew ''simulated error reading from sensor 2''))]"
    by (simp add: controller_eval)
  have ss: "sensors ?hs = [11, 12]" by (simp add: testHeatsink_def)
  have a3: "\<forall>r \<in> set (sensorReads (sensors ?hs) failingObjects). snd r \<noteq> None"
    unfolding ss rd by simp
  have a4: "StartThermalControl ([] @ False # []) ?hs failingObjects
              = (fst ?X, fst (snd ?X), snd (snd ?X))" by simp
  have nm: "ts_onName (therms failingObjects 11) = ''core''"
    "ts_onName (therms failingObjects 12) = ''core''"
    by (simp_all add: failingObjects_def freshSensor_def)
  show ?thesis
    using C6_all_sensors_fail [OF a1 a2 a3 a4] a2 rd
    by (simp add: ss nm)
qed

end
